theory Spec2Isabelle
  imports Main "HOL-Library.Word" "HOL-Library.Signed_Division"
begin

unbundle bit_operations_syntax

section \<open>Common types\<close>

text \<open>
  \<^verbatim>\<open>vlc_fourcc_t\<close> and the kernel's \<^verbatim>\<open>__u32\<close> are 32-bit unsigned integers.
  The status macros \<^verbatim>\<open>VLC_SUCCESS\<close> and \<^verbatim>\<open>VLC_EGENERIC\<close> are defined in
  \<^verbatim>\<open>vlc_common.h\<close>, outside the two files verified here; only the fact that they
  differ is used, so they are the constructors of a datatype.
\<close>

type_synonym vlc_fourcc_t = "32 word"
type_synonym u32 = "32 word"

datatype vlc_status = VLC_SUCCESS | VLC_EGENERIC

text \<open>
  The macro \<^verbatim>\<open>VLC_FOURCC(a,b,c,d)\<close> is defined in \<^verbatim>\<open>vlc_common.h\<close> too. The
  functions below take it as a parameter. Its two definitions there (one per byte
  order of the build) are these.
\<close>

type_synonym fourcc_macro = "char \<Rightarrow> char \<Rightarrow> char \<Rightarrow> char \<Rightarrow> vlc_fourcc_t"

definition fourcc_le :: fourcc_macro where
  "fourcc_le a b c d =
     of_char a OR push_bit 8 (of_char b) OR push_bit 16 (of_char c) OR push_bit 24 (of_char d)"

definition fourcc_be :: fourcc_macro where
  "fourcc_be a b c d =
     of_char d OR push_bit 8 (of_char c) OR push_bit 16 (of_char b) OR push_bit 24 (of_char a)"

section \<open>filter\_picture.h: GetPackedYuvOffsets\<close>

text \<open>
  The three \<^verbatim>\<open>int *\<close> arguments are addresses into a store of \<^verbatim>\<open>int\<close>
  objects; the function returns its status and the store after its writes. The writes
  happen in the order of the source (Y, then U, then V). A C \<^verbatim>\<open>switch\<close> with
  pairwise different labels is the chain of tests below.
\<close>

type_synonym addr = nat
type_synonym int_store = "addr \<Rightarrow> int"

definition GetPackedYuvOffsets ::
  "fourcc_macro \<Rightarrow> vlc_fourcc_t \<Rightarrow> addr \<Rightarrow> addr \<Rightarrow> addr \<Rightarrow> int_store \<Rightarrow> vlc_status \<times> int_store"
where
  "GetPackedYuvOffsets VLC_FOURCC i_chroma i_y_offset i_u_offset i_v_offset mem =
    (if i_chroma = VLC_FOURCC CHR ''U'' CHR ''Y'' CHR ''V'' CHR ''Y''
       \<or> i_chroma = VLC_FOURCC CHR ''U'' CHR ''Y'' CHR ''N'' CHR ''V''
       \<or> i_chroma = VLC_FOURCC CHR ''Y'' CHR ''4'' CHR ''2'' CHR ''2''
       \<or> i_chroma = VLC_FOURCC CHR ''c'' CHR ''y'' CHR ''u'' CHR ''v''
     then (VLC_SUCCESS, mem(i_y_offset := 1, i_u_offset := 0, i_v_offset := 2))
     else if i_chroma = VLC_FOURCC CHR ''Y'' CHR ''U'' CHR ''Y'' CHR ''2''
       \<or> i_chroma = VLC_FOURCC CHR ''Y'' CHR ''U'' CHR ''N'' CHR ''V''
     then (VLC_SUCCESS, mem(i_y_offset := 0, i_u_offset := 1, i_v_offset := 3))
     else if i_chroma = VLC_FOURCC CHR ''Y'' CHR ''V'' CHR ''Y'' CHR ''U''
     then (VLC_SUCCESS, mem(i_y_offset := 0, i_u_offset := 3, i_v_offset := 1))
     else (VLC_EGENERIC, mem))"

text \<open>The case labels of the switch, by family, in the order of the source.\<close>

definition uyvy_labels :: "fourcc_macro \<Rightarrow> vlc_fourcc_t list" where
  "uyvy_labels VLC_FOURCC =
     [VLC_FOURCC CHR ''U'' CHR ''Y'' CHR ''V'' CHR ''Y'',
      VLC_FOURCC CHR ''U'' CHR ''Y'' CHR ''N'' CHR ''V'',
      VLC_FOURCC CHR ''Y'' CHR ''4'' CHR ''2'' CHR ''2'',
      VLC_FOURCC CHR ''c'' CHR ''y'' CHR ''u'' CHR ''v'']"

definition yuyv_labels :: "fourcc_macro \<Rightarrow> vlc_fourcc_t list" where
  "yuyv_labels VLC_FOURCC =
     [VLC_FOURCC CHR ''Y'' CHR ''U'' CHR ''Y'' CHR ''2'',
      VLC_FOURCC CHR ''Y'' CHR ''U'' CHR ''N'' CHR ''V'']"

definition yvyu_labels :: "fourcc_macro \<Rightarrow> vlc_fourcc_t list" where
  "yvyu_labels VLC_FOURCC = [VLC_FOURCC CHR ''Y'' CHR ''V'' CHR ''Y'' CHR ''U'']"

definition packed_yuv_labels :: "fourcc_macro \<Rightarrow> vlc_fourcc_t list" where
  "packed_yuv_labels VLC_FOURCC =
     uyvy_labels VLC_FOURCC @ yuyv_labels VLC_FOURCC @ yvyu_labels VLC_FOURCC"

section \<open>demux.c: the format table\<close>

text \<open>
  One entry of \<^verbatim>\<open>v4l2_fmts\<close>. The table itself depends on the build (byte order,
  kernel headers with or without \<^verbatim>\<open>V4L2_PIX_FMT_H264\<close>) and on constants of
  \<^verbatim>\<open>linux/videodev2.h\<close> and \<^verbatim>\<open>vlc_fourcc.h\<close>, so the functions take it as
  a parameter \<open>fmts\<close>. A pointer into the table is the index of its entry; the null
  pointer is \<open>None\<close>.
\<close>

record vlc_v4l2_fmt_t =
  v4l2 :: u32
  vlc :: vlc_fourcc_t
  red :: u32
  green :: u32
  blue :: u32

type_synonym fmt_ptr = "nat option"

text \<open>\<^verbatim>\<open>size_t\<close> of an LP64 build.\<close>

definition SIZE_MAX :: nat where
  "SIZE_MAX = 2 ^ 64 - 1"

datatype setup_failure =
    Cannot_get_device_capabilities
  | Not_a_video_capture_device
  | No_supported_io_method
  | SetupInput_failed
  | Cannot_negotiate_supported_video_format
  | SetupFormat_failed
  | InitMmap_failed
  | Cannot_queue_buffer
  | Cannot_start_streaming
  | Assertion_failed
  | Integer_division_by_zero
  | Signed_integer_overflow

text \<open>
  \<^verbatim>\<open>for (size_t i = 0; i < n; i++) if (v4l2_fmts[i].v4l2 == fourcc) return v4l2_fmts + i;\<close>
  The first argument is the loop index, the second the entries from that index on.
\<close>

fun vlc_from_v4l2_fourcc_from :: "nat \<Rightarrow> vlc_v4l2_fmt_t list \<Rightarrow> u32 \<Rightarrow> fmt_ptr" where
  "vlc_from_v4l2_fourcc_from i [] fourcc = None"
| "vlc_from_v4l2_fourcc_from i (e # es) fourcc =
     (if v4l2 e = fourcc then Some i else vlc_from_v4l2_fourcc_from (Suc i) es fourcc)"

definition vlc_from_v4l2_fourcc :: "vlc_v4l2_fmt_t list \<Rightarrow> u32 \<Rightarrow> fmt_ptr" where
  "vlc_from_v4l2_fourcc fmts fourcc = vlc_from_v4l2_fourcc_from 0 fmts fourcc"

text \<open>The two assertions of the source abort the program; \<open>d \<ge> 0\<close> holds of an index.\<close>

definition vlc_v4l2_fmt_rank :: "vlc_v4l2_fmt_t list \<Rightarrow> fmt_ptr \<Rightarrow> setup_failure + nat" where
  "vlc_v4l2_fmt_rank fmts fmt =
     (case fmt of
        None \<Rightarrow> Inr SIZE_MAX
      | Some d \<Rightarrow> if d < length fmts then Inr d else Inl Assertion_failed)"

section \<open>demux.c: InitVideo\<close>

subsection \<open>Kernel interface\<close>

text \<open>Constants of \<^verbatim>\<open>linux/videodev2.h\<close> (the kernel's user-space ABI).\<close>

definition V4L2_CAP_VIDEO_CAPTURE :: u32 where "V4L2_CAP_VIDEO_CAPTURE = 0x00000001"
definition V4L2_CAP_READWRITE :: u32 where "V4L2_CAP_READWRITE = 0x01000000"
definition V4L2_CAP_STREAMING :: u32 where "V4L2_CAP_STREAMING = 0x04000000"
definition V4L2_CAP_DEVICE_CAPS :: u32 where "V4L2_CAP_DEVICE_CAPS = 0x80000000"

definition V4L2_FMT_FLAG_COMPRESSED :: u32 where "V4L2_FMT_FLAG_COMPRESSED = 0x0001"
definition V4L2_FMT_FLAG_EMULATED :: u32 where "V4L2_FMT_FLAG_EMULATED = 0x0002"

definition V4L2_FIELD_ANY :: u32 where "V4L2_FIELD_ANY = 0"
definition V4L2_FIELD_NONE :: u32 where "V4L2_FIELD_NONE = 1"
definition V4L2_FIELD_TOP :: u32 where "V4L2_FIELD_TOP = 2"
definition V4L2_FIELD_BOTTOM :: u32 where "V4L2_FIELD_BOTTOM = 3"
definition V4L2_FIELD_INTERLACED :: u32 where "V4L2_FIELD_INTERLACED = 4"
definition V4L2_FIELD_SEQ_TB :: u32 where "V4L2_FIELD_SEQ_TB = 5"
definition V4L2_FIELD_SEQ_BT :: u32 where "V4L2_FIELD_SEQ_BT = 6"
definition V4L2_FIELD_ALTERNATE :: u32 where "V4L2_FIELD_ALTERNATE = 7"
definition V4L2_FIELD_INTERLACED_TB :: u32 where "V4L2_FIELD_INTERLACED_TB = 8"
definition V4L2_FIELD_INTERLACED_BT :: u32 where "V4L2_FIELD_INTERLACED_BT = 9"

text \<open>The fields of the kernel's structures that the code reads (beyond logging).\<close>

record v4l2_capability =
  capabilities :: u32
  device_caps :: u32

record v4l2_fmtdesc =
  flags :: u32
  pixelformat :: u32

record v4l2_pix_format =
  width :: u32
  height :: u32
  field :: u32
  sizeimage :: u32

record v4l2_fract =
  numerator :: u32
  denominator :: u32

subsection \<open>Capabilities and I/O method (lines 259 to 288)\<close>

text \<open>
  Modelled from the spec: the type \<^verbatim>\<open>io_method\<close> of \<^verbatim>\<open>v4l2.h\<close>, the I/O strategy
  "enum {Read, MemoryMapped}", with the names of the two constants that \<^verbatim>\<open>demux.c\<close>
  uses.
\<close>

datatype io_method = IO_METHOD_READ | IO_METHOD_MMAP

text \<open>
  \<open>have_device_caps\<close> says whether the kernel headers of the build define
  \<^verbatim>\<open>V4L2_CAP_DEVICE_CAPS\<close>.
\<close>

definition InitVideo_caps :: "bool \<Rightarrow> v4l2_capability \<Rightarrow> u32" where
  "InitVideo_caps have_device_caps cap =
     (if have_device_caps \<and> capabilities cap AND V4L2_CAP_DEVICE_CAPS \<noteq> 0
      then device_caps cap else capabilities cap)"

definition InitVideo_io :: "u32 \<Rightarrow> setup_failure + io_method" where
  "InitVideo_io caps =
     (if caps AND V4L2_CAP_VIDEO_CAPTURE = 0 then Inl Not_a_video_capture_device
      else if caps AND V4L2_CAP_STREAMING \<noteq> 0 then Inr IO_METHOD_MMAP
      else if caps AND V4L2_CAP_READWRITE \<noteq> 0 then Inr IO_METHOD_READ
      else Inl No_supported_io_method)"

subsection \<open>Picture format negotiation (lines 293 to 339)\<close>

text \<open>
  \<^verbatim>\<open>var_InheritFourCC\<close>: no configured string gives 0, and so does a string that
  \<^verbatim>\<open>vlc_fourcc_GetCodecFromString\<close> (a function of another file, a parameter here)
  does not know.
\<close>

definition var_InheritFourCC :: "(string \<Rightarrow> vlc_fourcc_t) \<Rightarrow> string option \<Rightarrow> vlc_fourcc_t" where
  "var_InheritFourCC vlc_fourcc_GetCodecFromString str =
     (case str of None \<Rightarrow> 0 | Some s \<Rightarrow> vlc_fourcc_GetCodecFromString s)"

text \<open>
  The enumeration loop. \<^verbatim>\<open>VIDIOC_ENUM_FMT\<close> succeeds for the indices 0, 1, ... of
  the formats the device reports and fails after the last one, so the loop runs over
  the list of reported descriptors; \<open>selected\<close> and \<open>native\<close> are the two variables
  the loop updates. \<^verbatim>\<open>break\<close> returns at once, \<^verbatim>\<open>continue\<close> goes on with the
  rest of the list.
\<close>

fun InitVideo_enum ::
  "vlc_v4l2_fmt_t list \<Rightarrow> vlc_fourcc_t \<Rightarrow> v4l2_fmtdesc list \<Rightarrow> fmt_ptr \<Rightarrow> bool \<Rightarrow> setup_failure + fmt_ptr"
where
  "InitVideo_enum fmts reqfourcc [] selected native = Inr selected"
| "InitVideo_enum fmts reqfourcc (codec # rest) selected native =
     (case vlc_from_v4l2_fourcc fmts (pixelformat codec) of
        None \<Rightarrow> InitVideo_enum fmts reqfourcc rest selected native
      | Some dsc \<Rightarrow>
          if vlc (fmts ! dsc) = reqfourcc then Inr (Some dsc)
          else if flags codec AND V4L2_FMT_FLAG_EMULATED \<noteq> 0 \<and> native
            then InitVideo_enum fmts reqfourcc rest selected native
          else
            let native' = (if flags codec AND V4L2_FMT_FLAG_EMULATED \<noteq> 0 then native else True)
            in (case vlc_v4l2_fmt_rank fmts (Some dsc) of
                  Inl e \<Rightarrow> Inl e
                | Inr r \<Rightarrow>
                   (case vlc_v4l2_fmt_rank fmts selected of
                      Inl e \<Rightarrow> Inl e
                    | Inr r_selected \<Rightarrow>
                        if r > r_selected
                        then InitVideo_enum fmts reqfourcc rest selected native'
                        else InitVideo_enum fmts reqfourcc rest (Some dsc) native')))"

definition InitVideo_negotiate ::
  "vlc_v4l2_fmt_t list \<Rightarrow> vlc_fourcc_t \<Rightarrow> v4l2_fmtdesc list \<Rightarrow> setup_failure + nat"
where
  "InitVideo_negotiate fmts reqfourcc codecs =
     (case InitVideo_enum fmts reqfourcc codecs None False of
        Inl e \<Rightarrow> Inl e
      | Inr None \<Rightarrow> Inl Cannot_negotiate_supported_video_format
      | Inr (Some selected) \<Rightarrow> Inr selected)"

subsection \<open>Interlacing (lines 362 to 402)\<close>

text \<open>
  The switch over \<^verbatim>\<open>fmt.fmt.pix.field\<close>. It updates \<^verbatim>\<open>sys->i_block_flags\<close> and
  \<^verbatim>\<open>fmt.fmt.pix.height\<close>; every other statement of it writes a debug message. The
  two flag macros are defined in \<^verbatim>\<open>vlc_block.h\<close>, outside the files verified here,
  and are parameters. \<^verbatim>\<open>height\<close> is a \<^verbatim>\<open>__u32\<close>, so \<^verbatim>\<open>*= 2\<close> wraps modulo \<open>2^32\<close>.
\<close>

definition InitVideo_field :: "u32 \<Rightarrow> u32 \<Rightarrow> v4l2_pix_format \<Rightarrow> u32 \<Rightarrow> v4l2_pix_format \<times> u32" where
  "InitVideo_field BLOCK_FLAG_TOP_FIELD_FIRST BLOCK_FLAG_BOTTOM_FIELD_FIRST pix i_block_flags =
     (if field pix = V4L2_FIELD_NONE then (pix, i_block_flags)
      else if field pix = V4L2_FIELD_TOP then (pix, i_block_flags)
      else if field pix = V4L2_FIELD_BOTTOM then (pix, i_block_flags)
      else if field pix = V4L2_FIELD_INTERLACED then (pix, BLOCK_FLAG_TOP_FIELD_FIRST)
      else if field pix = V4L2_FIELD_SEQ_TB then (pix, i_block_flags)
      else if field pix = V4L2_FIELD_SEQ_BT then (pix, i_block_flags)
      else if field pix = V4L2_FIELD_ALTERNATE then (pix\<lparr>height := height pix * 2\<rparr>, i_block_flags)
      else if field pix = V4L2_FIELD_INTERLACED_TB then (pix, BLOCK_FLAG_TOP_FIELD_FIRST)
      else if field pix = V4L2_FIELD_INTERLACED_BT then (pix, BLOCK_FLAG_BOTTOM_FIELD_FIRST)
      else (pix, i_block_flags))"

subsection \<open>Aspect ratio (lines 416 to 426)\<close>

text \<open>
  C \<^verbatim>\<open>int\<close> arithmetic (32 bits): a product that leaves the range and a division by
  zero are undefined behaviour in C; the model stops there with a failure of its own.
  Division truncates towards zero.
\<close>

definition INT_MIN :: int where "INT_MIN = - (2 ^ 31)"
definition INT_MAX :: int where "INT_MAX = 2 ^ 31 - 1"

definition int_mul :: "int \<Rightarrow> int \<Rightarrow> setup_failure + int" where
  "int_mul a b =
     (if INT_MIN \<le> a * b \<and> a * b \<le> INT_MAX then Inr (a * b) else Inl Signed_integer_overflow)"

definition int_div :: "int \<Rightarrow> int \<Rightarrow> setup_failure + int" where
  "int_div a b =
     (if b = 0 then Inl Integer_division_by_zero
      else if a = INT_MIN \<and> b = - 1 then Inl Signed_integer_overflow
      else Inr (a sdiv b))"

text \<open>
  \<^verbatim>\<open>atoi\<close> of the C library: white space, an optional sign, then decimal digits up
  to the first other character; no digits give 0. A value outside \<^verbatim>\<open>int\<close> is
  undefined behaviour.
\<close>

definition isspace :: "char \<Rightarrow> bool" where
  "isspace c = (c = CHR '' '' \<or> (9 \<le> (of_char c :: nat) \<and> (of_char c :: nat) \<le> 13))"

definition isdigit :: "char \<Rightarrow> bool" where
  "isdigit c = (48 \<le> (of_char c :: nat) \<and> (of_char c :: nat) \<le> 57)"

fun atoi_digits :: "int \<Rightarrow> string \<Rightarrow> int" where
  "atoi_digits acc [] = acc"
| "atoi_digits acc (c # cs) =
     (if isdigit c then atoi_digits (acc * 10 + (of_char c - 48)) cs else acc)"

definition atoi :: "string \<Rightarrow> setup_failure + int" where
  "atoi str =
     (let s = dropWhile isspace str;
          v = (case s of
                 [] \<Rightarrow> 0
               | c # cs \<Rightarrow>
                   if c = CHR ''-'' then - atoi_digits 0 cs
                   else if c = CHR ''+'' then atoi_digits 0 cs
                   else atoi_digits 0 s)
      in if INT_MIN \<le> v \<and> v \<le> INT_MAX then Inr v else Inl Signed_integer_overflow)"

text \<open>\<^verbatim>\<open>strchr\<close>: the string from the first occurrence of the character on, or null.\<close>

definition strchr :: "string \<Rightarrow> char \<Rightarrow> string option" where
  "strchr str c = (case dropWhile (\<lambda>x. x \<noteq> c) str of [] \<Rightarrow> None | d # ds \<Rightarrow> Some (d # ds))"

text \<open>
  The value of \<^verbatim>\<open>ar\<close>. \<^verbatim>\<open>VOUT_ASPECT_FACTOR\<close> is a macro of the VLC headers,
  outside the files verified here, and a parameter. \<open>str\<close> is the result of
  \<^verbatim>\<open>var_InheritString\<close> for the aspect-ratio option (\<open>None\<close>: null).
\<close>

definition InitVideo_ar :: "int \<Rightarrow> string option \<Rightarrow> setup_failure + int" where
  "InitVideo_ar VOUT_ASPECT_FACTOR str =
     (case int_mul 4 VOUT_ASPECT_FACTOR of
        Inl e \<Rightarrow> Inl e
      | Inr p \<Rightarrow>
         (case int_div p 3 of
            Inl e \<Rightarrow> Inl e
          | Inr ar \<Rightarrow>
             (case str of
                None \<Rightarrow> Inr ar
              | Some s \<Rightarrow>
                 (case strchr s CHR '':'' of
                    None \<Rightarrow> Inr ar
                  | Some delim \<Rightarrow>
                     (case atoi s of
                        Inl e \<Rightarrow> Inl e
                      | Inr w \<Rightarrow>
                         (case int_mul w VOUT_ASPECT_FACTOR of
                            Inl e \<Rightarrow> Inl e
                          | Inr q \<Rightarrow>
                             (case atoi (tl delim) of
                                Inl e \<Rightarrow> Inl e
                              | Inr h \<Rightarrow> int_div q h)))))))"

text \<open>
  Modelled from the spec: the type \<^verbatim>\<open>es_format_t\<close> of \<^verbatim>\<open>vlc_es.h\<close>, the "output
  stream descriptor (output encoding, color masks, width, height, frame rate,
  sample-aspect ratios)" published with \<^verbatim>\<open>es_out_Add\<close>. The fields are those that
  \<^verbatim>\<open>InitVideo\<close> writes, under the names it uses; they are unsigned 32-bit integers, so
  the two products for the sample aspect ratio are taken modulo \<open>2^32\<close>, the
  \<^verbatim>\<open>int\<close> operand converted to unsigned first.
\<close>

record es_format_t =
  i_codec :: vlc_fourcc_t
  i_rmask :: u32
  i_gmask :: u32
  i_bmask :: u32
  i_width :: u32
  i_height :: u32
  i_frame_rate :: u32
  i_frame_rate_base :: u32
  i_sar_num :: u32
  i_sar_den :: u32

definition InitVideo_es_fmt ::
  "int \<Rightarrow> vlc_v4l2_fmt_t \<Rightarrow> v4l2_pix_format \<Rightarrow> v4l2_fract \<Rightarrow> int \<Rightarrow> es_format_t"
where
  "InitVideo_es_fmt VOUT_ASPECT_FACTOR selected pix timeperframe ar =
     \<lparr>i_codec = vlc selected,
      i_rmask = red selected, i_gmask = green selected, i_bmask = blue selected,
      i_width = width pix, i_height = height pix,
      i_frame_rate = denominator timeperframe,
      i_frame_rate_base = numerator timeperframe,
      i_sar_num = word_of_int ar * height pix,
      i_sar_den = word_of_int VOUT_ASPECT_FACTOR * width pix\<rparr>"

subsection \<open>The session and InitVideo as a whole\<close>

text \<open>
  Modelled from the spec: the types \<^verbatim>\<open>buffer_t\<close> and \<^verbatim>\<open>demux_sys_t\<close> of
  \<^verbatim>\<open>v4l2.h\<close>. A mapped buffer is "a process-local memory region (base address +
  length)"; the capture session aggregates the I/O strategy, the "buffer pool (if
  MemoryMapped) or a fixed read block size (if Read)" and the "interlace-derived frame
  flag". The fields bear the names that \<^verbatim>\<open>demux.c\<close> uses; \<^verbatim>\<open>p_buffers\<close> is null
  (\<open>None\<close>) or the array of the pool.
\<close>

record buffer_t =
  start :: addr
  length_b :: nat

record demux_sys_t =
  io :: io_method
  p_buffers :: "buffer_t list option"
  i_nbuffers :: nat
  blocksize :: u32
  i_block_flags :: u32

text \<open>
  What the build fixes: the format table, and the macros and functions that
  \<^verbatim>\<open>InitVideo\<close> takes from headers outside the files verified here.
\<close>

record build =
  v4l2_fmts :: "vlc_v4l2_fmt_t list"
  HAVE_V4L2_CAP_DEVICE_CAPS :: bool
  vlc_fourcc_GetCodecFromString :: "string \<Rightarrow> vlc_fourcc_t"
  BLOCK_FLAG_TOP_FIELD_FIRST :: u32
  BLOCK_FLAG_BOTTOM_FIELD_FIRST :: u32
  VOUT_ASPECT_FACTOR :: int

text \<open>
  What the device and the configuration answer during \<^verbatim>\<open>InitVideo\<close>: the result of
  each ioctl, of the functions of other files (\<^verbatim>\<open>SetupInput\<close>, \<^verbatim>\<open>SetupFormat\<close>,
  \<^verbatim>\<open>InitMmap\<close>: \<open>None\<close> or \<open>False\<close> is their failure) and the two configured
  strings.
\<close>

record device =
  VIDIOC_QUERYCAP :: "v4l2_capability option"
  SetupInput_ok :: bool
  chroma :: "string option"
  VIDIOC_ENUM_FMT :: "v4l2_fmtdesc list"
  SetupFormat :: "u32 \<Rightarrow> (v4l2_pix_format \<times> v4l2_fract) option"
  aspect_ratio :: "string option"
  InitMmap :: "buffer_t list option"
  VIDIOC_QBUF_ok :: "nat \<Rightarrow> bool"
  VIDIOC_STREAMON_ok :: bool

text \<open>The loop that queues the buffers 0, 1, ... and stops at the first failure.\<close>

fun InitVideo_qbuf :: "(nat \<Rightarrow> bool) \<Rightarrow> nat \<Rightarrow> nat \<Rightarrow> bool" where
  "InitVideo_qbuf ok i 0 = True"
| "InitVideo_qbuf ok i (Suc n) = (if ok i then InitVideo_qbuf ok (Suc i) n else False)"

definition InitVideo_init_io ::
  "device \<Rightarrow> v4l2_pix_format \<Rightarrow> demux_sys_t \<Rightarrow> setup_failure + demux_sys_t"
where
  "InitVideo_init_io dev pix sys =
     (case io sys of
        IO_METHOD_READ \<Rightarrow> Inr (sys\<lparr>blocksize := sizeimage pix\<rparr>)
      | IO_METHOD_MMAP \<Rightarrow>
         (case InitMmap dev of
            None \<Rightarrow> Inl InitMmap_failed
          | Some bufs \<Rightarrow>
              if \<not> InitVideo_qbuf (VIDIOC_QBUF_ok dev) 0 (length bufs) then Inl Cannot_queue_buffer
              else if \<not> VIDIOC_STREAMON_ok dev then Inl Cannot_start_streaming
              else Inr (sys\<lparr>p_buffers := Some bufs, i_nbuffers := length bufs\<rparr>)))"

definition InitVideo :: "build \<Rightarrow> device \<Rightarrow> demux_sys_t \<Rightarrow> setup_failure + demux_sys_t \<times> es_format_t" where
  "InitVideo b dev sys =
     (case VIDIOC_QUERYCAP dev of
        None \<Rightarrow> Inl Cannot_get_device_capabilities
      | Some cap \<Rightarrow>
         (case InitVideo_io (InitVideo_caps (HAVE_V4L2_CAP_DEVICE_CAPS b) cap) of
            Inl e \<Rightarrow> Inl e
          | Inr method \<Rightarrow>
              if \<not> SetupInput_ok dev then Inl SetupInput_failed
              else
               (case InitVideo_negotiate (v4l2_fmts b)
                       (var_InheritFourCC (vlc_fourcc_GetCodecFromString b) (chroma dev))
                       (VIDIOC_ENUM_FMT dev) of
                  Inl e \<Rightarrow> Inl e
                | Inr selected \<Rightarrow>
                   (case SetupFormat dev (v4l2 (v4l2_fmts b ! selected)) of
                      None \<Rightarrow> Inl SetupFormat_failed
                    | Some (pix, timeperframe) \<Rightarrow>
                       (case InitVideo_field (BLOCK_FLAG_TOP_FIELD_FIRST b)
                               (BLOCK_FLAG_BOTTOM_FIELD_FIRST b) pix (i_block_flags sys) of
                          (pix', block_flags) \<Rightarrow>
                           (case InitVideo_ar (VOUT_ASPECT_FACTOR b) (aspect_ratio dev) of
                              Inl e \<Rightarrow> Inl e
                            | Inr ar \<Rightarrow>
                               (case InitVideo_init_io dev pix'
                                       (sys\<lparr>io := method, i_block_flags := block_flags\<rparr>) of
                                  Inl e \<Rightarrow> Inl e
                                | Inr sys' \<Rightarrow>
                                    Inr (sys',
                                         InitVideo_es_fmt (VOUT_ASPECT_FACTOR b)
                                           (v4l2_fmts b ! selected) pix' timeperframe ar))))))))"

text \<open>
  \<^verbatim>\<open>DemuxOpen\<close> allocates the session with \<^verbatim>\<open>calloc\<close>: the pointer is null, the
  numbers and the flags are 0. \<^verbatim>\<open>InitVideo\<close> writes \<^verbatim>\<open>io\<close> before anything reads it,
  so its value here does not matter.
\<close>

definition calloc_demux_sys :: demux_sys_t where
  "calloc_demux_sys =
     \<lparr>io = IO_METHOD_READ, p_buffers = None, i_nbuffers = 0, blocksize = 0, i_block_flags = 0\<rparr>"

section \<open>demux.c: DemuxClose\<close>

text \<open>
  \<^verbatim>\<open>DemuxClose\<close> returns nothing; what it does is the sequence of calls it makes on
  the device and the allocator, in order. \<open>None\<close> stands for a read of
  \<^verbatim>\<open>sys->p_buffers[i]\<close> beyond the array.
\<close>

datatype call =
    VIDIOC_DQBUF
  | VIDIOC_STREAMOFF
  | V4l2_munmap addr nat
  | Free_start addr
  | Free_p_buffers
  | ControlsDeinit
  | V4l2_close
  | Free_sys

definition DemuxClose_stop :: "demux_sys_t \<Rightarrow> call list" where
  "DemuxClose_stop sys =
     (case io sys of
        IO_METHOD_READ \<Rightarrow> []
      | IO_METHOD_MMAP \<Rightarrow> replicate (i_nbuffers sys) VIDIOC_DQBUF @ [VIDIOC_STREAMOFF])"

definition DemuxClose_free :: "demux_sys_t \<Rightarrow> call list option" where
  "DemuxClose_free sys =
     (case p_buffers sys of
        None \<Rightarrow> Some []
      | Some bufs \<Rightarrow>
         (case io sys of
            IO_METHOD_READ \<Rightarrow>
              (case bufs of [] \<Rightarrow> None | b # _ \<Rightarrow> Some [Free_start (start b), Free_p_buffers])
          | IO_METHOD_MMAP \<Rightarrow>
              if i_nbuffers sys \<le> length bufs
              then Some (map (\<lambda>b. V4l2_munmap (start b) (length_b b)) (take (i_nbuffers sys) bufs)
                         @ [Free_p_buffers])
              else None))"

definition DemuxClose :: "demux_sys_t \<Rightarrow> call list option" where
  "DemuxClose sys =
     (case DemuxClose_free sys of
        None \<Rightarrow> None
      | Some frees \<Rightarrow> Some (DemuxClose_stop sys @ frees @ [ControlsDeinit, V4l2_close, Free_sys]))"

section \<open>demux.c: Demux\<close>

text \<open>
  One call of \<^verbatim>\<open>poll\<close> answers with its return value, \<^verbatim>\<open>errno\<close> and the
  \<^verbatim>\<open>revents\<close> it stored. The device's answers to the successive calls of one
  \<^verbatim>\<open>Demux\<close> are a list; the waiting loop returns \<open>None\<close> when it has used up the
  list and would poll again.
\<close>

record poll_result =
  ret :: int
  errno :: int
  revents :: "16 word"

definition EINTR :: int where "EINTR = 4"

fun Demux_poll :: "poll_result list \<Rightarrow> (int + 16 word) option" where
  "Demux_poll [] = None"
| "Demux_poll (p # ps) =
     (if ret p = - 1
      then (if errno p \<noteq> EINTR then Some (Inl (- 1)) else Demux_poll ps)
      else Some (Inr (revents p)))"

text \<open>
  Modelled from the spec: the type \<^verbatim>\<open>block_t\<close> of \<^verbatim>\<open>vlc_block.h\<close>, one frame with
  its size, its "presentation and decode timestamp" and its flags, under the names of
  the fields that \<^verbatim>\<open>demux.c\<close> writes.
\<close>

record block_t =
  i_buffer :: int
  i_pts :: int
  i_dts :: int
  i_flags :: u32

text \<open>
  \<^verbatim>\<open>BlockRead\<close>: a failed allocation and every failed read give null.
  \<^verbatim>\<open>block_Alloc\<close> and \<^verbatim>\<open>GrabVideo\<close> are functions of other files; what they,
  \<^verbatim>\<open>v4l2_read\<close> and the clock answer during one call of \<^verbatim>\<open>Demux\<close> is a record.
\<close>

record capture =
  block_Alloc :: "block_t option"
  v4l2_read :: int
  GrabVideo :: "block_t option"
  mdate :: int

definition BlockRead :: "capture \<Rightarrow> block_t option" where
  "BlockRead cap =
     (case block_Alloc cap of
        None \<Rightarrow> None
      | Some block \<Rightarrow>
          if v4l2_read cap = - 1 then None
          else Some (block\<lparr>i_buffer := v4l2_read cap\<rparr>))"

datatype es_out_call = ES_OUT_SET_PCR int | Es_out_Send block_t

text \<open>The result of \<^verbatim>\<open>Demux\<close>, given the answers \<open>polls\<close> of the device to the
  successive calls of \<^verbatim>\<open>poll\<close>: its return value and the calls it made downstream.\<close>

definition Demux ::
  "demux_sys_t \<Rightarrow> poll_result list \<Rightarrow> capture \<Rightarrow> (int \<times> es_out_call list) option"
where
  "Demux sys polls cap =
     (case Demux_poll polls of
        None \<Rightarrow> None
      | Some (Inl r) \<Rightarrow> Some (r, [])
      | Some (Inr events) \<Rightarrow>
          if events = 0 then Some (1, [])
          else
           (case (if io sys = IO_METHOD_READ then BlockRead cap else GrabVideo cap) of
              None \<Rightarrow> Some (1, [])
            | Some block \<Rightarrow>
                let stamped = block\<lparr>i_pts := mdate cap, i_dts := mdate cap,
                                     i_flags := i_flags block OR i_block_flags sys\<rparr>
                in Some (1, [ES_OUT_SET_PCR (i_pts stamped), Es_out_Send stamped])))"

section \<open>A table of one build\<close>

text \<open>
  The table of a little-endian build whose kernel headers define
  \<^verbatim>\<open>V4L2_PIX_FMT_H264\<close>, with the character codes that
  \<^verbatim>\<open>linux/videodev2.h\<close> and \<^verbatim>\<open>vlc_fourcc.h\<close> give the constants. It serves as
  the concrete table of the examples; no general statement depends on it.
\<close>

definition v4l2_fourcc :: fourcc_macro where
  "v4l2_fourcc a b c d =
     of_char a OR push_bit 8 (of_char b) OR push_bit 16 (of_char c) OR push_bit 24 (of_char d)"

definition fmt_entry :: "string \<Rightarrow> string \<Rightarrow> u32 \<Rightarrow> u32 \<Rightarrow> u32 \<Rightarrow> vlc_v4l2_fmt_t" where
  "fmt_entry v c r g b =
     \<lparr>v4l2 = v4l2_fourcc (v ! 0) (v ! 1) (v ! 2) (v ! 3),
      vlc = fourcc_le (c ! 0) (c ! 1) (c ! 2) (c ! 3),
      red = r, green = g, blue = b\<rparr>"

definition v4l2_fmts_le :: "vlc_v4l2_fmt_t list" where
  "v4l2_fmts_le =
     [fmt_entry ''YU12'' ''I420'' 0 0 0,
      fmt_entry ''YV12'' ''YV12'' 0 0 0,
      fmt_entry ''422P'' ''I422'' 0 0 0,
      fmt_entry ''YUYV'' ''YUY2'' 0 0 0,
      fmt_entry ''UYVY'' ''UYVY'' 0 0 0,
      fmt_entry ''YVYU'' ''YVYU'' 0 0 0,
      fmt_entry ''VYUY'' ''VYUY'' 0 0 0,
      fmt_entry ''411P'' ''I411'' 0 0 0,
      fmt_entry ''YUV9'' ''I410'' 0 0 0,
      fmt_entry ''NV12'' ''NV12'' 0 0 0,
      fmt_entry ''NV21'' ''NV21'' 0 0 0,
      fmt_entry ''RGB4'' ''RV32'' 0x0000FF 0x00FF00 0xFF0000,
      fmt_entry ''BGR4'' ''RV32'' 0xFF0000 0x00FF00 0x0000FF,
      fmt_entry ''RGB3'' ''RV24'' 0x0000FF 0x00FF00 0xFF0000,
      fmt_entry ''BGR3'' ''RV24'' 0xFF0000 0x00FF00 0x0000FF,
      fmt_entry ''RGBP'' ''RV16'' 0x001F 0x07E0 0xF800,
      fmt_entry ''RGBO'' ''RV15'' 0x001F 0x03E0 0x7C00,
      fmt_entry ''JPEG'' ''MJPG'' 0 0 0,
      fmt_entry ''H264'' ''h264'' 0 0 0,
      fmt_entry ''MPG4'' ''mp4v'' 0 0 0,
      fmt_entry ''XVID'' ''mp4v'' 0 0 0,
      fmt_entry ''H263'' ''H263'' 0 0 0,
      fmt_entry ''MPG2'' ''mpgv'' 0 0 0,
      fmt_entry ''MPG1'' ''mpgv'' 0 0 0,
      fmt_entry ''VC1G'' ''VC-1'' 0 0 0,
      fmt_entry ''VC1L'' ''VC-1'' 0 0 0,
      fmt_entry ''MJPG'' ''MJPG'' 0 0 0,
      fmt_entry ''GREY'' ''GREY'' 0 0 0]"

text \<open>A reported format: the device-native code and whether it is emulated.\<close>

definition fmtdesc :: "string \<Rightarrow> bool \<Rightarrow> v4l2_fmtdesc" where
  "fmtdesc v emulated =
     \<lparr>flags = (if emulated then V4L2_FMT_FLAG_EMULATED else 0),
      pixelformat = v4l2_fourcc (v ! 0) (v ! 1) (v ! 2) (v ! 3)\<rparr>"

section \<open>Concrete inputs for the examples\<close>


definition example_build :: build where
  "example_build =
     \<lparr>v4l2_fmts = v4l2_fmts_le,
      HAVE_V4L2_CAP_DEVICE_CAPS = True,
      vlc_fourcc_GetCodecFromString =
        (\<lambda>s. if length s = 4 then fourcc_le (s ! 0) (s ! 1) (s ! 2) (s ! 3) else 0),
      BLOCK_FLAG_TOP_FIELD_FIRST = 0x2000,
      BLOCK_FLAG_BOTTOM_FIELD_FIRST = 0x4000,
      VOUT_ASPECT_FACTOR = 432000\<rparr>"

definition example_device :: "u32 \<Rightarrow> v4l2_fmtdesc list \<Rightarrow> device" where
  "example_device caps codecs =
     \<lparr>VIDIOC_QUERYCAP = Some \<lparr>capabilities = caps, device_caps = 0\<rparr>,
      SetupInput_ok = True,
      chroma = None,
      VIDIOC_ENUM_FMT = codecs,
      SetupFormat = (\<lambda>fourcc. Some (\<lparr>width = 720, height = 480, field = V4L2_FIELD_INTERLACED,
                                         sizeimage = 691200\<rparr>,
                                        \<lparr>numerator = 1, denominator = 25\<rparr>)),
      aspect_ratio = Some ''16:9'',
      InitMmap = Some [\<lparr>start = 4096, length_b = 691200\<rparr>, \<lparr>start = 696320, length_b = 691200\<rparr>],
      VIDIOC_QBUF_ok = (\<lambda>i. True),
      VIDIOC_STREAMON_ok = True\<rparr>"

definition example_capture :: capture where
  "example_capture =
     \<lparr>block_Alloc = Some \<lparr>i_buffer = 691200, i_pts = 0, i_dts = 0, i_flags = 0\<rparr>,
      v4l2_read = 691200,
      GrabVideo = Some \<lparr>i_buffer = 691200, i_pts = 0, i_dts = 0, i_flags = 0\<rparr>,
      mdate = 1000000\<rparr>"

definition pix_720x480 :: v4l2_pix_format where
  "pix_720x480 = \<lparr>width = 720, height = 480, field = V4L2_FIELD_NONE, sizeimage = 691200\<rparr>"

definition example_sys :: demux_sys_t where
  "example_sys =
     \<lparr>io = IO_METHOD_MMAP,
      p_buffers = Some [\<lparr>start = 4096, length_b = 691200\<rparr>, \<lparr>start = 696320, length_b = 691200\<rparr>],
      i_nbuffers = 2, blocksize = 0, i_block_flags = 0x2000\<rparr>"


definition example_es :: es_format_t where
  "example_es =
     \<lparr>i_codec = fourcc_le CHR ''Y'' CHR ''U'' CHR ''Y'' CHR ''2'',
      i_rmask = 0, i_gmask = 0, i_bmask = 0,
      i_width = 720, i_height = 480,
      i_frame_rate = 25, i_frame_rate_base = 1,
      i_sar_num = 368640000, i_sar_den = 311040000\<rparr>"

section \<open>Notions used in the statements about the negotiation\<close>

text \<open>
  The tests of the enumeration loop, named: a reported format is emulated when the
  loop's test of its flags succeeds, recognized when the catalog lookup finds an
  entry, and it matches the request when that entry's output encoding is the
  requested one. \<open>valid_ptr\<close> says that a pointer is null or points into the
  table; \<open>keep_best\<close> is the pointer that the rank comparison leaves in
  \<^verbatim>\<open>selected\<close>; \<open>least_of r S\<close> says that \<open>r\<close> is the least rank of \<open>S\<close>
  (null when \<open>S\<close> is empty).
\<close>

definition emulated :: "v4l2_fmtdesc \<Rightarrow> bool" where
  "emulated codec = (flags codec AND V4L2_FMT_FLAG_EMULATED \<noteq> 0)"

definition recognized :: "vlc_v4l2_fmt_t list \<Rightarrow> v4l2_fmtdesc \<Rightarrow> bool" where
  "recognized fmts codec = (vlc_from_v4l2_fourcc fmts (pixelformat codec) \<noteq> None)"

definition matches :: "vlc_v4l2_fmt_t list \<Rightarrow> vlc_fourcc_t \<Rightarrow> v4l2_fmtdesc \<Rightarrow> bool" where
  "matches fmts req codec =
     (case vlc_from_v4l2_fourcc fmts (pixelformat codec) of
        None \<Rightarrow> False | Some d \<Rightarrow> vlc (fmts ! d) = req)"

definition least_of :: "fmt_ptr \<Rightarrow> nat set \<Rightarrow> bool" where
  "least_of r S = (case r of None \<Rightarrow> S = {} | Some m \<Rightarrow> m \<in> S \<and> (\<forall>x\<in>S. m \<le> x))"

definition valid_ptr :: "vlc_v4l2_fmt_t list \<Rightarrow> fmt_ptr \<Rightarrow> bool" where
  "valid_ptr fmts p = (case p of None \<Rightarrow> True | Some d \<Rightarrow> d < length fmts)"

definition keep_best :: "fmt_ptr \<Rightarrow> nat \<Rightarrow> fmt_ptr" where
  "keep_best selected d = (case selected of None \<Rightarrow> Some d | Some s \<Rightarrow> if d > s then Some s else Some d)"

section \<open>Properties of GetPackedYuvOffsets\<close>

lemma packed_yuv_labels_le_distinct: "distinct (packed_yuv_labels fourcc_le)"
  by (simp add: packed_yuv_labels_def uyvy_labels_def yuyv_labels_def yvyu_labels_def
      fourcc_le_def)

lemma packed_yuv_labels_be_distinct: "distinct (packed_yuv_labels fourcc_be)"
  by (simp add: packed_yuv_labels_def uyvy_labels_def yuyv_labels_def yvyu_labels_def
      fourcc_be_def)

text \<open>
  Claim C10. For every input fourcc, \<open>GetPackedYuvOffsets\<close> returns success exactly
  for the seven packed YUV 4:2:2 fourccs (UYVY, UYNV, Y422, cyuv, YUY2, YUNV, YVYU); it
  then writes the Y/U/V byte offsets (1,0,2) for the UYVY family, (0,1,3) for the YUYV
  family and (0,3,1) for YVYU, and nothing else. For every other fourcc it returns an
  error and leaves the store, hence all three output locations, unchanged. The case
  labels are pairwise different (the compiler demands it of a switch), and the three
  output locations are three different objects.
\<close>

theorem GetPackedYuvOffsets_spec:
  assumes labels: "distinct (packed_yuv_labels F)"
    and ptrs: "distinct [py, pu, pv]"
  shows "case GetPackedYuvOffsets F c py pu pv mem of (r, mem') \<Rightarrow>
      (r = VLC_SUCCESS \<longleftrightarrow> c \<in> set (packed_yuv_labels F)) \<and>
      (c \<in> set (uyvy_labels F) \<longrightarrow> mem' = mem(py := 1, pu := 0, pv := 2)
          \<and> (mem' py, mem' pu, mem' pv) = (1, 0, 2)) \<and>
      (c \<in> set (yuyv_labels F) \<longrightarrow> mem' = mem(py := 0, pu := 1, pv := 3)
          \<and> (mem' py, mem' pu, mem' pv) = (0, 1, 3)) \<and>
      (c \<in> set (yvyu_labels F) \<longrightarrow> mem' = mem(py := 0, pu := 3, pv := 1)
          \<and> (mem' py, mem' pu, mem' pv) = (0, 3, 1)) \<and>
      (c \<notin> set (packed_yuv_labels F) \<longrightarrow> r = VLC_EGENERIC \<and> mem' = mem)"
proof -
  consider (uyvy) "c \<in> set (uyvy_labels F)"
    | (yuyv) "c \<in> set (yuyv_labels F)"
    | (yvyu) "c \<in> set (yvyu_labels F)"
    | (other) "c \<notin> set (packed_yuv_labels F)"
    by (auto simp: packed_yuv_labels_def)
  then show ?thesis
  proof cases
    case uyvy
    with labels have "c \<notin> set (yuyv_labels F)" "c \<notin> set (yvyu_labels F)"
      by (auto simp: packed_yuv_labels_def)
    with uyvy ptrs show ?thesis
      by (auto simp: GetPackedYuvOffsets_def packed_yuv_labels_def uyvy_labels_def)
  next
    case yuyv
    with labels have "c \<notin> set (uyvy_labels F)" "c \<notin> set (yvyu_labels F)"
      by (auto simp: packed_yuv_labels_def)
    with yuyv ptrs show ?thesis
      by (auto simp: GetPackedYuvOffsets_def packed_yuv_labels_def uyvy_labels_def
          yuyv_labels_def)
  next
    case yvyu
    with labels have "c \<notin> set (uyvy_labels F)" "c \<notin> set (yuyv_labels F)"
      by (auto simp: packed_yuv_labels_def)
    with yvyu ptrs show ?thesis
      by (auto simp: GetPackedYuvOffsets_def packed_yuv_labels_def uyvy_labels_def
          yuyv_labels_def yvyu_labels_def)
  next
    case other
    then show ?thesis
      by (auto simp: GetPackedYuvOffsets_def packed_yuv_labels_def uyvy_labels_def
          yuyv_labels_def yvyu_labels_def)
  qed
qed

theorem GetPackedYuvOffsets_spec_witness:
  "distinct (packed_yuv_labels fourcc_le) \<and> distinct [10, 11, 12 :: addr] \<and>
   GetPackedYuvOffsets fourcc_le (fourcc_le CHR ''Y'' CHR ''U'' CHR ''Y'' CHR ''2'') 10 11 12 (\<lambda>_. 7)
     = (VLC_SUCCESS, (\<lambda>_. 7)(10 := 0, 11 := 1, 12 := 3)) \<and>
   GetPackedYuvOffsets fourcc_le (fourcc_le CHR ''I'' CHR ''4'' CHR ''2'' CHR ''0'') 10 11 12 (\<lambda>_. 7)
     = (VLC_EGENERIC, \<lambda>_. 7)"
proof -
  have ptrs: "distinct [10, 11, 12 :: addr]" by simp
  have yuy2: "fourcc_le CHR ''Y'' CHR ''U'' CHR ''Y'' CHR ''2'' \<in> set (yuyv_labels fourcc_le)"
    by (simp add: yuyv_labels_def)
  have i420: "fourcc_le CHR ''I'' CHR ''4'' CHR ''2'' CHR ''0'' \<notin> set (packed_yuv_labels fourcc_le)"
    by (simp add: packed_yuv_labels_def uyvy_labels_def yuyv_labels_def yvyu_labels_def
        fourcc_le_def)
  from GetPackedYuvOffsets_spec [OF packed_yuv_labels_le_distinct ptrs,
      of "fourcc_le CHR ''Y'' CHR ''U'' CHR ''Y'' CHR ''2''" "\<lambda>_. 7"] yuy2
  have a: "GetPackedYuvOffsets fourcc_le (fourcc_le CHR ''Y'' CHR ''U'' CHR ''Y'' CHR ''2'') 10 11 12 (\<lambda>_. 7)
     = (VLC_SUCCESS, (\<lambda>_. 7)(10 := 0, 11 := 1, 12 := 3))"
    by (auto simp: packed_yuv_labels_def split: prod.splits)
  from GetPackedYuvOffsets_spec [OF packed_yuv_labels_le_distinct ptrs,
      of "fourcc_le CHR ''I'' CHR ''4'' CHR ''2'' CHR ''0''" "\<lambda>_. 7"] i420
  have b: "GetPackedYuvOffsets fourcc_le (fourcc_le CHR ''I'' CHR ''4'' CHR ''2'' CHR ''0'') 10 11 12 (\<lambda>_. 7)
     = (VLC_EGENERIC, \<lambda>_. 7)"
    by (auto split: prod.splits)
  from a b ptrs packed_yuv_labels_le_distinct show ?thesis by blast
qed

section \<open>Properties of the format table and the negotiation\<close>

lemma from_bounds:
  "vlc_from_v4l2_fourcc_from i es f = Some d \<Longrightarrow> i \<le> d \<and> d < i + length es"
proof (induction es arbitrary: i)
  case Nil
  then show ?case by simp
next
  case (Cons e es)
  show ?case
  proof (cases "v4l2 e = f")
    case True
    with Cons.prems show ?thesis by simp
  next
    case False
    with Cons.prems have "vlc_from_v4l2_fourcc_from (Suc i) es f = Some d" by simp
    from Cons.IH [OF this] show ?thesis by simp
  qed
qed

lemma from_nth:
  "vlc_from_v4l2_fourcc_from i es f = Some d \<Longrightarrow> v4l2 (es ! (d - i)) = f"
proof (induction es arbitrary: i)
  case Nil then show ?case by simp
next
  case (Cons e es)
  show ?case
  proof (cases "v4l2 e = f")
    case True with Cons.prems show ?thesis by simp
  next
    case False
    with Cons.prems have r: "vlc_from_v4l2_fourcc_from (Suc i) es f = Some d" by simp
    from from_bounds [OF r] have "d - i = Suc (d - Suc i)" by arith
    with Cons.IH [OF r] show ?thesis by simp
  qed
qed

lemma lookup_lt: "vlc_from_v4l2_fourcc fmts f = Some d \<Longrightarrow> d < length fmts"
  using from_bounds [of 0 fmts f d] by (simp add: vlc_from_v4l2_fourcc_def)

lemma lookup_None_iff: "vlc_from_v4l2_fourcc_from i es f = None \<longleftrightarrow> f \<notin> v4l2 ` set es"
  by (induction es arbitrary: i) auto

lemma rank_valid:
  "valid_ptr fmts p \<Longrightarrow>
   vlc_v4l2_fmt_rank fmts p = Inr (case p of None \<Rightarrow> SIZE_MAX | Some d \<Rightarrow> d)"
  by (auto simp: valid_ptr_def vlc_v4l2_fmt_rank_def split: option.splits)

lemma enum_unrecognized:
  "\<not> recognized fmts c \<Longrightarrow>
   InitVideo_enum fmts req (c # rest) sel nt = InitVideo_enum fmts req rest sel nt"
  by (simp add: recognized_def)

lemma enum_match:
  "vlc_from_v4l2_fourcc fmts (pixelformat c) = Some d \<Longrightarrow> vlc (fmts ! d) = req \<Longrightarrow>
   InitVideo_enum fmts req (c # rest) sel nt = Inr (Some d)"
  by simp

lemma enum_skip:
  "emulated c \<Longrightarrow> \<not> matches fmts req c \<Longrightarrow>
   InitVideo_enum fmts req (c # rest) sel True = InitVideo_enum fmts req rest sel True"
  by (auto simp: emulated_def matches_def split: option.splits)

lemma enum_compare:
  assumes "vlc_from_v4l2_fourcc fmts (pixelformat c) = Some d" "vlc (fmts ! d) \<noteq> req"
    and "\<not> (emulated c \<and> nt)" "valid_ptr fmts sel" "length fmts \<le> SIZE_MAX"
  shows "InitVideo_enum fmts req (c # rest) sel nt =
         InitVideo_enum fmts req rest (keep_best sel d) (\<not> emulated c \<or> nt)"
proof -
  from assms(1) have d: "d < length fmts" by (rule lookup_lt)
  then have vd: "valid_ptr fmts (Some d)" by (simp add: valid_ptr_def)
  show ?thesis
  proof (cases sel)
    case None
    with assms d show ?thesis
      by (auto simp: emulated_def keep_best_def Let_def vlc_v4l2_fmt_rank_def)
  next
    case (Some s)
    with assms d show ?thesis
      by (auto simp: emulated_def keep_best_def Let_def vlc_v4l2_fmt_rank_def valid_ptr_def)
  qed
qed

lemma keep_best_valid: "valid_ptr fmts sel \<Longrightarrow> d < length fmts \<Longrightarrow> valid_ptr fmts (keep_best sel d)"
  by (auto simp: valid_ptr_def keep_best_def split: option.splits)

lemma keep_best_least:
  "least_of sel S \<Longrightarrow> least_of (keep_best sel d) (insert d S)"
  by (auto simp: least_of_def keep_best_def split: option.splits)

lemma enum_continue:
  assumes "\<not> matches fmts req c" "valid_ptr fmts sel"
  shows "\<exists>sel' nt'. valid_ptr fmts sel' \<and>
           (\<forall>rest. InitVideo_enum fmts req (c # rest) sel nt = InitVideo_enum fmts req rest sel' nt')"
proof (cases "vlc_from_v4l2_fourcc fmts (pixelformat c)")
  case None
  with assms(2) show ?thesis by auto
next
  case (Some d)
  with assms(1) have ne: "vlc (fmts ! d) \<noteq> req" by (simp add: matches_def)
  from Some have d: "d < length fmts" by (rule lookup_lt)
  then have vd: "valid_ptr fmts (Some d)" by (simp add: valid_ptr_def)
  have r1: "vlc_v4l2_fmt_rank fmts (Some d) = Inr d"
    using d by (simp add: vlc_v4l2_fmt_rank_def)
  obtain rs where r2: "vlc_v4l2_fmt_rank fmts sel = Inr rs"
    using rank_valid [OF assms(2)] by blast
  show ?thesis
  proof (cases "flags c AND V4L2_FMT_FLAG_EMULATED \<noteq> 0 \<and> nt")
    case True
    with Some ne assms(2) show ?thesis by auto
  next
    case False
    show ?thesis
    proof (cases "d > rs")
      case True
      with Some ne False r1 r2 assms(2) show ?thesis
        by (intro exI [of _ sel] exI [of _ "if flags c AND V4L2_FMT_FLAG_EMULATED \<noteq> 0 then nt else True"])
           (auto simp: Let_def)
    next
      case gt: False
      with Some ne False r1 r2 vd show ?thesis
        by (intro exI [of _ "Some d"] exI [of _ "if flags c AND V4L2_FMT_FLAG_EMULATED \<noteq> 0 then nt else True"])
           (auto simp: Let_def)
    qed
  qed
qed

lemma enum_first_match:
  assumes "\<forall>p\<in>set pre. \<not> matches fmts req p"
    and "vlc_from_v4l2_fourcc fmts (pixelformat c) = Some d" "vlc (fmts ! d) = req"
    and "valid_ptr fmts sel"
  shows "InitVideo_enum fmts req (pre @ c # post) sel nt = Inr (Some d)"
  using assms(1,4)
proof (induction pre arbitrary: sel nt)
  case Nil
  from assms(2,3) show ?case by simp
next
  case (Cons p pre)
  from Cons.prems have "\<not> matches fmts req p" by simp
  from enum_continue [OF this Cons.prems(2), of nt]
  obtain sel' nt' where v: "valid_ptr fmts sel'"
    and step: "\<And>rest. InitVideo_enum fmts req (p # rest) sel nt = InitVideo_enum fmts req rest sel' nt'"
    by blast
  from Cons.prems have "\<forall>p\<in>set pre. \<not> matches fmts req p" by simp
  from Cons.IH [OF this v] step show ?case by simp
qed

lemma enum_none_recognized:
  "\<forall>c\<in>set cs. vlc_from_v4l2_fourcc fmts (pixelformat c) = None \<Longrightarrow>
   InitVideo_enum fmts req cs sel nt = Inr sel"
  by (induction cs) auto

lemma enum_emulated_ignored:
  assumes "emulated c" "\<not> matches fmts req c"
    and "nt \<or> (\<exists>p\<in>set pre. recognized fmts p \<and> \<not> emulated p)"
  shows "InitVideo_enum fmts req (pre @ c # post) sel nt = InitVideo_enum fmts req (pre @ post) sel nt"
  using assms(3)
proof (induction pre arbitrary: sel nt)
  case Nil
  with assms(1,2) show ?case by (simp add: enum_skip del: InitVideo_enum.simps)
next
  case (Cons p pre)
  have ihT: "InitVideo_enum fmts req (pre @ c # post) s True = InitVideo_enum fmts req (pre @ post) s True"
    for s by (rule Cons.IH) simp
  show ?case
  proof (cases "vlc_from_v4l2_fourcc fmts (pixelformat p)")
    case None
    with Cons.prems have "nt \<or> (\<exists>p\<in>set pre. recognized fmts p \<and> \<not> emulated p)"
      by (auto simp: recognized_def)
    from Cons.IH [OF this] None show ?thesis by simp
  next
    case (Some d)
    show ?thesis
    proof (cases "emulated p")
      case True
      then have e: "flags p AND V4L2_FMT_FLAG_EMULATED \<noteq> 0" by (simp add: emulated_def)
      show ?thesis
      proof (cases nt)
        case nt: True
        with Some e ihT show ?thesis by simp
      next
        case nt: False
        with Cons.prems True have "\<exists>p\<in>set pre. recognized fmts p \<and> \<not> emulated p"
          by auto
        then have ihF: "InitVideo_enum fmts req (pre @ c # post) s False
            = InitVideo_enum fmts req (pre @ post) s False" for s
          by (intro Cons.IH) simp
        from Some e nt ihF show ?thesis
          by (simp add: Let_def split: sum.splits)
      qed
    next
      case False
      then have e: "flags p AND V4L2_FMT_FLAG_EMULATED = 0" by (simp add: emulated_def)
      from Some e ihT show ?thesis
        by (simp add: Let_def split: sum.splits)
    qed
  qed
qed

lemma least_of_keep_best_union:
  "least_of r (set_option (keep_best sel k) \<union> B) \<Longrightarrow> least_of r (set_option sel \<union> insert k B)"
  by (cases sel) (auto simp: least_of_def keep_best_def split: option.splits if_splits)

lemma least_of_union:
  "least_of r A \<Longrightarrow> least_of m (set_option r \<union> B) \<Longrightarrow> least_of m (A \<union> B)"
  by (cases r; cases m) (auto simp: least_of_def)

lemma enum_native:
  assumes "length fmts \<le> SIZE_MAX"
    and "\<forall>c\<in>set cs. \<not> matches fmts req c" "valid_ptr fmts sel"
  shows "\<exists>r. InitVideo_enum fmts req cs sel True = Inr r \<and>
            least_of r (set_option sel \<union>
               {k. \<exists>c\<in>set cs. \<not> emulated c \<and> vlc_from_v4l2_fourcc fmts (pixelformat c) = Some k})"
  using assms(2,3)
proof (induction cs arbitrary: sel)
  case Nil
  show ?case by (cases sel) (auto simp: least_of_def)
next
  case (Cons c cs)
  let ?N = "\<lambda>cs. {k. \<exists>c\<in>set cs. \<not> emulated c \<and> vlc_from_v4l2_fourcc fmts (pixelformat c) = Some k}"
  from Cons.prems have nm: "\<not> matches fmts req c" and nms: "\<forall>c\<in>set cs. \<not> matches fmts req c"
    by simp_all
  show ?case
  proof (cases "vlc_from_v4l2_fourcc fmts (pixelformat c)")
    case None
    then have "?N (c # cs) = ?N cs" by auto
    with Cons.IH [OF nms Cons.prems(2)] None show ?thesis by simp
  next
    case (Some k)
    show ?thesis
    proof (cases "emulated c")
      case True
      then have "?N (c # cs) = ?N cs" by auto
      with Cons.IH [OF nms Cons.prems(2)] enum_skip [OF True nm, of cs sel]
      show ?thesis by (simp del: InitVideo_enum.simps)
    next
      case False
      from Some nm have ne: "vlc (fmts ! k) \<noteq> req" by (simp add: matches_def)
      from False have "\<not> (emulated c \<and> True)" by simp
      from enum_compare [OF Some ne this Cons.prems(2) assms(1), of cs]
      have step: "InitVideo_enum fmts req (c # cs) sel True
                  = InitVideo_enum fmts req cs (keep_best sel k) True" by simp
      have v: "valid_ptr fmts (keep_best sel k)"
        using Cons.prems(2) lookup_lt [OF Some] by (rule keep_best_valid)
      from Cons.IH [OF nms v] obtain r where
        r: "InitVideo_enum fmts req cs (keep_best sel k) True = Inr r"
        and l: "least_of r (set_option (keep_best sel k) \<union> ?N cs)" by blast
      have "?N (c # cs) = insert k (?N cs)" using False Some by auto
      with least_of_keep_best_union [OF l] step r show ?thesis
        by (simp del: InitVideo_enum.simps)
    qed
  qed
qed

lemma enum_before_native:
  assumes "length fmts \<le> SIZE_MAX"
    and "\<forall>p\<in>set pre. \<not> matches fmts req p"
    and "\<forall>p\<in>set pre. recognized fmts p \<longrightarrow> emulated p"
    and "valid_ptr fmts sel"
  shows "\<exists>r. valid_ptr fmts r \<and>
            least_of r (set_option sel \<union>
               {k. \<exists>c\<in>set pre. vlc_from_v4l2_fourcc fmts (pixelformat c) = Some k}) \<and>
            (\<forall>rest. InitVideo_enum fmts req (pre @ rest) sel False
                   = InitVideo_enum fmts req rest r False)"
  using assms(2,3,4)
proof (induction pre arbitrary: sel)
  case Nil
  then show ?case by (cases sel) (auto simp: least_of_def)
next
  case (Cons c cs)
  let ?E = "\<lambda>cs. {k. \<exists>c\<in>set cs. vlc_from_v4l2_fourcc fmts (pixelformat c) = Some k}"
  from Cons.prems have nm: "\<not> matches fmts req c" and nms: "\<forall>c\<in>set cs. \<not> matches fmts req c"
    and ems: "\<forall>p\<in>set cs. recognized fmts p \<longrightarrow> emulated p"
    by simp_all
  show ?case
  proof (cases "vlc_from_v4l2_fourcc fmts (pixelformat c)")
    case None
    then have "?E (c # cs) = ?E cs" by auto
    with Cons.IH [OF nms ems Cons.prems(3)] None show ?thesis by simp
  next
    case (Some k)
    with Cons.prems(2) have em: "emulated c" by (simp add: recognized_def)
    from Some nm have ne: "vlc (fmts ! k) \<noteq> req" by (simp add: matches_def)
    have "\<not> (emulated c \<and> False)" by simp
    from enum_compare [OF Some ne this Cons.prems(3) assms(1)] em
    have step: "InitVideo_enum fmts req (c # rest) sel False
                = InitVideo_enum fmts req rest (keep_best sel k) False" for rest by simp
    have v: "valid_ptr fmts (keep_best sel k)"
      using Cons.prems(3) lookup_lt [OF Some] by (rule keep_best_valid)
    from Cons.IH [OF nms ems v] obtain r where
      vr: "valid_ptr fmts r"
      and l: "least_of r (set_option (keep_best sel k) \<union> ?E cs)"
      and r: "\<And>rest. InitVideo_enum fmts req (cs @ rest) (keep_best sel k) False
                 = InitVideo_enum fmts req rest r False" by blast
    have "?E (c # cs) = insert k (?E cs)" using Some by auto
    with least_of_keep_best_union [OF l] step r vr show ?thesis
      by (auto simp del: InitVideo_enum.simps)
  qed
qed

lemma no_request_no_match:
  assumes "\<forall>e\<in>set fmts. vlc e \<noteq> 0"
  shows "\<not> matches fmts 0 c"
proof (cases "vlc_from_v4l2_fourcc fmts (pixelformat c)")
  case None
  then show ?thesis by (simp add: matches_def)
next
  case (Some d)
  from lookup_lt [OF this] have "fmts ! d \<in> set fmts" by simp
  with assms Some show ?thesis by (auto simp: matches_def)
qed

lemma negotiate_first_native:
  assumes size: "length fmts \<le> SIZE_MAX"
    and nm: "\<forall>c\<in>set (pre @ n # post). \<not> matches fmts req c"
    and pre: "\<forall>p\<in>set pre. recognized fmts p \<longrightarrow> emulated p"
    and n: "vlc_from_v4l2_fourcc fmts (pixelformat n) = Some dn" "\<not> emulated n"
  shows "\<exists>d. InitVideo_enum fmts req (pre @ n # post) None False = Inr (Some d) \<and>
     least_of (Some d)
       ({k. \<exists>c\<in>set pre. vlc_from_v4l2_fourcc fmts (pixelformat c) = Some k} \<union>
        {k. \<exists>c\<in>set (n # post). \<not> emulated c \<and> vlc_from_v4l2_fourcc fmts (pixelformat c) = Some k})"
proof -
  let ?E = "{k. \<exists>c\<in>set pre. vlc_from_v4l2_fourcc fmts (pixelformat c) = Some k}"
  let ?N = "\<lambda>cs. {k. \<exists>c\<in>set cs. \<not> emulated c \<and> vlc_from_v4l2_fourcc fmts (pixelformat c) = Some k}"
  have v0: "valid_ptr fmts None" by (simp add: valid_ptr_def)
  from nm have nm_pre: "\<forall>p\<in>set pre. \<not> matches fmts req p"
    and nm_n: "\<not> matches fmts req n" and nm_post: "\<forall>p\<in>set post. \<not> matches fmts req p"
    by simp_all
  from enum_before_native [OF size nm_pre pre v0] obtain r0 where
    v: "valid_ptr fmts r0" and l0: "least_of r0 ?E"
    and e0: "\<And>rest. InitVideo_enum fmts req (pre @ rest) None False
               = InitVideo_enum fmts req rest r0 False" by auto
  from n(1) nm_n have ne: "vlc (fmts ! dn) \<noteq> req" by (simp add: matches_def)
  from n(2) have "\<not> (emulated n \<and> False)" by simp
  from enum_compare [OF n(1) ne this v size, of post] n(2)
  have e1: "InitVideo_enum fmts req (n # post) r0 False
            = InitVideo_enum fmts req post (keep_best r0 dn) True" by simp
  have v1: "valid_ptr fmts (keep_best r0 dn)"
    using v lookup_lt [OF n(1)] by (rule keep_best_valid)
  from enum_native [OF size nm_post v1] obtain r where
    e2: "InitVideo_enum fmts req post (keep_best r0 dn) True = Inr r"
    and l2: "least_of r (set_option (keep_best r0 dn) \<union> ?N post)" by blast
  have l1: "least_of (keep_best r0 dn) (insert dn ?E)" using l0 by (rule keep_best_least)
  from least_of_union [OF l1 l2] have l: "least_of r (insert dn ?E \<union> ?N post)" .
  have eq: "insert dn ?E \<union> ?N post = ?E \<union> ?N (n # post)" using n by auto
  from l eq have l': "least_of r (?E \<union> ?N (n # post))" by simp
  have "dn \<in> ?E \<union> ?N (n # post)" using n by auto
  with l' obtain d where "r = Some d" by (cases r) (auto simp: least_of_def)
  with e0 [of "n # post"] e1 e2 l' show ?thesis by (simp del: InitVideo_enum.simps)
qed

subsection \<open>The table of the little-endian build\<close>

lemma v4l2_fmts_le_size: "length v4l2_fmts_le \<le> SIZE_MAX"
  by (simp add: v4l2_fmts_le_def SIZE_MAX_def)

lemma v4l2_fmts_le_vlc: "\<forall>e\<in>set v4l2_fmts_le. vlc e \<noteq> 0"
  by (simp add: v4l2_fmts_le_def fmt_entry_def fourcc_le_def)

lemmas table_defs = v4l2_fmts_le_def fmt_entry_def fmtdesc_def v4l2_fourcc_def fourcc_le_def
  vlc_from_v4l2_fourcc_def

lemma lookup_YU12: "vlc_from_v4l2_fourcc v4l2_fmts_le (pixelformat (fmtdesc ''YU12'' e)) = Some 0"
  by (simp add: table_defs)

lemma lookup_YV12: "vlc_from_v4l2_fourcc v4l2_fmts_le (pixelformat (fmtdesc ''YV12'' e)) = Some 1"
  by (simp add: table_defs)

lemma lookup_422P: "vlc_from_v4l2_fourcc v4l2_fmts_le (pixelformat (fmtdesc ''422P'' e)) = Some 2"
  by (simp add: table_defs)

lemma lookup_YUYV: "vlc_from_v4l2_fourcc v4l2_fmts_le (pixelformat (fmtdesc ''YUYV'' e)) = Some 3"
  by (simp add: table_defs)

lemma lookup_YVYU: "vlc_from_v4l2_fourcc v4l2_fmts_le (pixelformat (fmtdesc ''YVYU'' e)) = Some 5"
  by (simp add: table_defs)

lemma lookup_BA81: "vlc_from_v4l2_fourcc v4l2_fmts_le (pixelformat (fmtdesc ''BA81'' e)) = None"
  by (simp add: table_defs)

lemma lookup_Y41P: "vlc_from_v4l2_fourcc v4l2_fmts_le (pixelformat (fmtdesc ''Y41P'' e)) = None"
  by (simp add: table_defs)

lemma emulated_fmtdesc: "emulated (fmtdesc v e) = e"
  by (simp add: emulated_def fmtdesc_def V4L2_FMT_FLAG_EMULATED_def)

lemma vlc_entry_0: "vlc (v4l2_fmts_le ! 0) = fourcc_le CHR ''I'' CHR ''4'' CHR ''2'' CHR ''0''"
  by (simp add: v4l2_fmts_le_def fmt_entry_def)

lemma vlc_entry_3: "vlc (v4l2_fmts_le ! 3) \<noteq> fourcc_le CHR ''I'' CHR ''4'' CHR ''2'' CHR ''0''"
  by (simp add: v4l2_fmts_le_def fmt_entry_def fourcc_le_def)

lemma v4l2_fmts_le_length: "length v4l2_fmts_le = 28"
  by (simp add: v4l2_fmts_le_def)

lemma flags_fmtdesc: "(flags (fmtdesc v e) AND V4L2_FMT_FLAG_EMULATED = 0) = (\<not> e)"
  by (simp add: fmtdesc_def V4L2_FMT_FLAG_EMULATED_def)

lemma vlc_nth_nonzero: "k < 28 \<Longrightarrow> vlc (v4l2_fmts_le ! k) \<noteq> 0"
  using v4l2_fmts_le_vlc by (simp add: v4l2_fmts_le_length)

lemmas eval_enum = InitVideo_negotiate_def var_InheritFourCC_def vlc_v4l2_fmt_rank_def SIZE_MAX_def
  v4l2_fmts_le_length flags_fmtdesc vlc_nth_nonzero vlc_entry_0 vlc_entry_3
  lookup_YU12 lookup_YV12 lookup_422P lookup_YUYV lookup_YVYU lookup_BA81 lookup_Y41P

subsection \<open>Negotiation without a requested encoding\<close>

text \<open>
  When the rank of a candidate equals the rank of the current best, both are the same
  entry of the table: the assignment \<^verbatim>\<open>selected = dsc\<close> that the loop then makes
  stores the pointer that \<^verbatim>\<open>selected\<close> holds already.
\<close>

lemma enum_tie:
  assumes size: "length fmts \<le> SIZE_MAX"
    and c: "vlc_from_v4l2_fourcc fmts (pixelformat c) = Some k" "\<not> matches fmts req c"
    and s: "s < length fmts"
    and tie: "vlc_v4l2_fmt_rank fmts (Some k) = vlc_v4l2_fmt_rank fmts (Some s)"
  shows "InitVideo_enum fmts req (c # rest) (Some s) nt
       = InitVideo_enum fmts req rest (Some s) (\<not> emulated c \<or> nt)"
proof -
  from c(1) have k: "k < length fmts" by (rule lookup_lt)
  with s tie have ks: "k = s" by (simp add: vlc_v4l2_fmt_rank_def)
  from s have v: "valid_ptr fmts (Some s)" by (simp add: valid_ptr_def)
  from c have ne: "vlc (fmts ! k) \<noteq> req" by (simp add: matches_def)
  show ?thesis
  proof (cases "emulated c \<and> nt")
    case True
    with enum_skip [OF _ c(2), of rest "Some s"] show ?thesis by (simp del: InitVideo_enum.simps)
  next
    case False
    from enum_compare [OF c(1) ne False v size, of rest] ks show ?thesis
      by (simp add: keep_best_def del: InitVideo_enum.simps)
  qed
qed

text \<open>
  Claim C1 (as amended). Take an enumeration with no explicitly requested output
  encoding (\<^verbatim>\<open>var_InheritFourCC\<close> of a null string, which is 0, while no entry of the
  table has the output encoding 0), written \<open>pre @ n # post\<close> with \<open>n\<close> its first
  catalog-recognized non-emulated entry. Negotiation succeeds and selects the catalog
  entry of lowest table rank among the recognized entries of \<open>pre\<close> (all of them
  emulated) and the recognized non-emulated entries from \<open>n\<close> on. When no recognized
  entry precedes \<open>n\<close> this is the lowest rank among the non-emulated entries, which is
  what the claim says of every enumeration. Second conjunct: a candidate whose rank
  equals the rank of the current best leaves the selection as it is, so the
  first-seen candidate is kept.
\<close>

theorem negotiate_without_request:
  assumes size: "length fmts \<le> SIZE_MAX" and codes: "\<forall>e\<in>set fmts. vlc e \<noteq> 0"
    and pre: "\<forall>p\<in>set pre. recognized fmts p \<longrightarrow> emulated p"
    and n: "vlc_from_v4l2_fourcc fmts (pixelformat n) = Some dn" "\<not> emulated n"
  shows "(\<exists>d. InitVideo_negotiate fmts (var_InheritFourCC g None) (pre @ n # post) = Inr d \<and>
            least_of (Some d)
              ({k. \<exists>c\<in>set pre. vlc_from_v4l2_fourcc fmts (pixelformat c) = Some k} \<union>
               {k. \<exists>c\<in>set (n # post). \<not> emulated c \<and>
                     vlc_from_v4l2_fourcc fmts (pixelformat c) = Some k}))
       \<and> (\<forall>c k s rest nt.
            vlc_from_v4l2_fourcc fmts (pixelformat c) = Some k \<and> s < length fmts \<and>
            vlc_v4l2_fmt_rank fmts (Some k) = vlc_v4l2_fmt_rank fmts (Some s)
            \<longrightarrow> InitVideo_enum fmts (var_InheritFourCC g None) (c # rest) (Some s) nt
                = InitVideo_enum fmts (var_InheritFourCC g None) rest (Some s) (\<not> emulated c \<or> nt))"
proof -
  have req: "var_InheritFourCC g None = 0" by (simp add: var_InheritFourCC_def)
  have nm: "\<not> matches fmts 0 c" for c using codes by (rule no_request_no_match)
  then have "\<forall>c\<in>set (pre @ n # post). \<not> matches fmts 0 c" by blast
  from negotiate_first_native [OF size this pre n]
  have first: "\<exists>d. InitVideo_negotiate fmts (var_InheritFourCC g None) (pre @ n # post) = Inr d \<and>
            least_of (Some d)
              ({k. \<exists>c\<in>set pre. vlc_from_v4l2_fourcc fmts (pixelformat c) = Some k} \<union>
               {k. \<exists>c\<in>set (n # post). \<not> emulated c \<and>
                     vlc_from_v4l2_fourcc fmts (pixelformat c) = Some k})"
    unfolding req InitVideo_negotiate_def by (auto simp del: InitVideo_enum.simps)
  have "InitVideo_enum fmts (var_InheritFourCC g None) (c # rest) (Some s) nt
                = InitVideo_enum fmts (var_InheritFourCC g None) rest (Some s) (\<not> emulated c \<or> nt)"
    if "vlc_from_v4l2_fourcc fmts (pixelformat c) = Some k" "s < length fmts"
      "vlc_v4l2_fmt_rank fmts (Some k) = vlc_v4l2_fmt_rank fmts (Some s)"
    for c k s rest nt
    unfolding req using size that(1) nm that(2,3) by (rule enum_tie)
  with first show ?thesis by blast
qed

text \<open>
  The scenario of the specification: emulated YVYU (rank 5), native 422P (rank 2),
  emulated YV12 (rank 1); 422P is selected.
\<close>

theorem negotiate_without_request_witness:
  "length v4l2_fmts_le \<le> SIZE_MAX \<and>
   emulated (fmtdesc ''YVYU'' True) \<and>
   vlc_from_v4l2_fourcc v4l2_fmts_le (pixelformat (fmtdesc ''422P'' False)) = Some 2 \<and>
   \<not> emulated (fmtdesc ''422P'' False) \<and>
   (\<exists>d. InitVideo_negotiate v4l2_fmts_le (var_InheritFourCC (\<lambda>s. 0) None)
          [fmtdesc ''YVYU'' True, fmtdesc ''422P'' False, fmtdesc ''YV12'' True] = Inr d \<and>
        least_of (Some d)
          ({k. \<exists>c\<in>set [fmtdesc ''YVYU'' True].
                 vlc_from_v4l2_fourcc v4l2_fmts_le (pixelformat c) = Some k} \<union>
           {k. \<exists>c\<in>set [fmtdesc ''422P'' False, fmtdesc ''YV12'' True]. \<not> emulated c \<and>
                 vlc_from_v4l2_fourcc v4l2_fmts_le (pixelformat c) = Some k})) \<and>
   InitVideo_negotiate v4l2_fmts_le (var_InheritFourCC (\<lambda>s. 0) None)
          [fmtdesc ''YVYU'' True, fmtdesc ''422P'' False, fmtdesc ''YV12'' True] = Inr 2"
proof -
  have pre: "\<forall>p\<in>set [fmtdesc ''YVYU'' True]. recognized v4l2_fmts_le p \<longrightarrow> emulated p"
    by (simp add: emulated_fmtdesc)
  have n: "\<not> emulated (fmtdesc ''422P'' False)" by (simp add: emulated_fmtdesc)
  from negotiate_without_request [OF v4l2_fmts_le_size v4l2_fmts_le_vlc pre lookup_422P n,
      of "\<lambda>s. 0" "[fmtdesc ''YV12'' True]"]
  have a: "\<exists>d. InitVideo_negotiate v4l2_fmts_le (var_InheritFourCC (\<lambda>s. 0) None)
          [fmtdesc ''YVYU'' True, fmtdesc ''422P'' False, fmtdesc ''YV12'' True] = Inr d \<and>
        least_of (Some d)
          ({k. \<exists>c\<in>set [fmtdesc ''YVYU'' True].
                 vlc_from_v4l2_fourcc v4l2_fmts_le (pixelformat c) = Some k} \<union>
           {k. \<exists>c\<in>set [fmtdesc ''422P'' False, fmtdesc ''YV12'' True]. \<not> emulated c \<and>
                 vlc_from_v4l2_fourcc v4l2_fmts_le (pixelformat c) = Some k})"
    by (simp only: append.simps)
  have b: "InitVideo_negotiate v4l2_fmts_le (var_InheritFourCC (\<lambda>s. 0) None)
          [fmtdesc ''YVYU'' True, fmtdesc ''422P'' False, fmtdesc ''YV12'' True] = Inr 2"
    by (simp add: eval_enum)
  have e: "emulated (fmtdesc ''YVYU'' True)" by (simp add: emulated_fmtdesc)
  from a b v4l2_fmts_le_size lookup_422P [of False] n e show ?thesis
    by blast
qed

text \<open>
  The claim as stated fails where an emulated format of better rank is enumerated
  before the first native one: of emulated YU12 (rank 0) and native YUYV (rank 3),
  the only non-emulated entry, the loop keeps YU12.
\<close>

theorem negotiate_without_request_counterexample:
  "emulated (fmtdesc ''YU12'' True) \<and>
   vlc_from_v4l2_fourcc v4l2_fmts_le (pixelformat (fmtdesc ''YU12'' True)) = Some 0 \<and>
   \<not> emulated (fmtdesc ''YUYV'' False) \<and>
   vlc_from_v4l2_fourcc v4l2_fmts_le (pixelformat (fmtdesc ''YUYV'' False)) = Some 3 \<and>
   InitVideo_negotiate v4l2_fmts_le (var_InheritFourCC (\<lambda>s. 0) None)
      [fmtdesc ''YU12'' True, fmtdesc ''YUYV'' False] = Inr 0 \<and>
   InitVideo_negotiate v4l2_fmts_le (var_InheritFourCC (\<lambda>s. 0) None)
      [fmtdesc ''YU12'' True, fmtdesc ''YUYV'' False] \<noteq> Inr 3"
proof -
  have "InitVideo_negotiate v4l2_fmts_le (var_InheritFourCC (\<lambda>s. 0) None)
      [fmtdesc ''YU12'' True, fmtdesc ''YUYV'' False] = Inr 0"
    by (simp add: eval_enum)
  moreover have "\<not> emulated (fmtdesc ''YUYV'' False)" "emulated (fmtdesc ''YU12'' True)"
    by (simp_all add: emulated_fmtdesc)
  ultimately show ?thesis
    using lookup_YU12 [of True] lookup_YUYV [of False] by simp
qed

subsection \<open>Emulated formats after a native one\<close>

text \<open>
  Claim C2 (as amended). For every enumeration and every request: once a
  catalog-recognized native (non-emulated) encoding has been enumerated, every later
  emulated encoding whose output encoding is not the requested one is skipped outright,
  whatever its rank: the result of the negotiation is the result without that entry,
  and the step of the loop at that entry, with \<^verbatim>\<open>native\<close> set, changes nothing.
\<close>

theorem emulated_after_native_skipped:
  assumes "\<exists>p\<in>set pre. recognized fmts p \<and> \<not> emulated p"
    and "emulated c" and "\<not> matches fmts req c"
  shows "InitVideo_negotiate fmts req (pre @ c # post) = InitVideo_negotiate fmts req (pre @ post)
       \<and> InitVideo_enum fmts req (c # post) selected True = InitVideo_enum fmts req post selected True"
proof -
  from assms(1) have "False \<or> (\<exists>p\<in>set pre. recognized fmts p \<and> \<not> emulated p)" by simp
  from enum_emulated_ignored [OF assms(2,3) this]
  have "InitVideo_negotiate fmts req (pre @ c # post) = InitVideo_negotiate fmts req (pre @ post)"
    by (simp add: InitVideo_negotiate_def del: InitVideo_enum.simps)
  moreover from assms(2,3)
  have "InitVideo_enum fmts req (c # post) selected True = InitVideo_enum fmts req post selected True"
    by (rule enum_skip)
  ultimately show ?thesis by blast
qed

text \<open>
  The scenario of the specification again: emulated YV12 (rank 1) after native 422P
  (rank 2) does not displace it.
\<close>

theorem emulated_after_native_skipped_witness:
  "recognized v4l2_fmts_le (fmtdesc ''422P'' False) \<and> \<not> emulated (fmtdesc ''422P'' False) \<and>
   emulated (fmtdesc ''YV12'' True) \<and> \<not> matches v4l2_fmts_le 0 (fmtdesc ''YV12'' True) \<and>
   vlc_from_v4l2_fourcc v4l2_fmts_le (pixelformat (fmtdesc ''YV12'' True)) = Some 1 \<and>
   InitVideo_negotiate v4l2_fmts_le 0
     [fmtdesc ''YVYU'' True, fmtdesc ''422P'' False, fmtdesc ''YV12'' True] = Inr 2"
proof -
  have r: "recognized v4l2_fmts_le (fmtdesc ''422P'' False)"
    by (simp add: recognized_def lookup_422P)
  have n: "\<not> emulated (fmtdesc ''422P'' False)" and e: "emulated (fmtdesc ''YV12'' True)"
    by (simp_all add: emulated_fmtdesc)
  have m: "\<not> matches v4l2_fmts_le 0 (fmtdesc ''YV12'' True)"
    using v4l2_fmts_le_vlc by (rule no_request_no_match)
  from r n have pre: "\<exists>p\<in>set [fmtdesc ''YVYU'' True, fmtdesc ''422P'' False].
      recognized v4l2_fmts_le p \<and> \<not> emulated p" by simp
  have two: "InitVideo_negotiate v4l2_fmts_le 0 [fmtdesc ''YVYU'' True, fmtdesc ''422P'' False] = Inr 2"
    by (simp add: eval_enum)
  from emulated_after_native_skipped [OF pre e m, of "[]"] two
  have "InitVideo_negotiate v4l2_fmts_le 0
     [fmtdesc ''YVYU'' True, fmtdesc ''422P'' False, fmtdesc ''YV12'' True] = Inr 2"
    by (simp only: append.simps append_Nil2)
  with r n e m lookup_YV12 [of True] show ?thesis by blast
qed

text \<open>
  The claim as stated (any later emulated encoding, any request) fails for an emulated
  encoding that the request names: after native YUYV has been accepted as the current
  best, emulated YU12 with the requested output encoding I420 is selected at once.
\<close>

theorem emulated_after_native_counterexample:
  "InitVideo_enum v4l2_fmts_le (fourcc_le CHR ''I'' CHR ''4'' CHR ''2'' CHR ''0'')
      [fmtdesc ''YUYV'' False] None False = Inr (Some 3) \<and>
   \<not> emulated (fmtdesc ''YUYV'' False) \<and>
   emulated (fmtdesc ''YU12'' True) \<and>
   vlc_from_v4l2_fourcc v4l2_fmts_le (pixelformat (fmtdesc ''YU12'' True)) = Some 0 \<and>
   InitVideo_negotiate v4l2_fmts_le (fourcc_le CHR ''I'' CHR ''4'' CHR ''2'' CHR ''0'')
      [fmtdesc ''YUYV'' False, fmtdesc ''YU12'' True] = Inr 0 \<and>
   InitVideo_negotiate v4l2_fmts_le (fourcc_le CHR ''I'' CHR ''4'' CHR ''2'' CHR ''0'')
      [fmtdesc ''YUYV'' False] = Inr 3"
proof -
  have "InitVideo_enum v4l2_fmts_le (fourcc_le CHR ''I'' CHR ''4'' CHR ''2'' CHR ''0'')
      [fmtdesc ''YUYV'' False] None False = Inr (Some 3)"
    by (simp add: eval_enum)
  moreover have "InitVideo_negotiate v4l2_fmts_le (fourcc_le CHR ''I'' CHR ''4'' CHR ''2'' CHR ''0'')
      [fmtdesc ''YUYV'' False, fmtdesc ''YU12'' True] = Inr 0"
    by (simp add: eval_enum)
  moreover have "InitVideo_negotiate v4l2_fmts_le (fourcc_le CHR ''I'' CHR ''4'' CHR ''2'' CHR ''0'')
      [fmtdesc ''YUYV'' False] = Inr 3"
    by (simp add: eval_enum)
  moreover have "\<not> emulated (fmtdesc ''YUYV'' False)" "emulated (fmtdesc ''YU12'' True)"
    by (simp_all add: emulated_fmtdesc)
  ultimately show ?thesis
    using lookup_YU12 [of True] by blast
qed

subsection \<open>The requested encoding\<close>

text \<open>
  Claim C3. For every enumeration and every requested output encoding: if \<open>c\<close> is
  the first enumerated entry whose catalog entry has the requested output encoding,
  negotiation selects the catalog entry of \<open>c\<close>, whatever its rank and its emulation
  flag, and whatever is enumerated after it.
\<close>

theorem requested_format_selected:
  assumes "\<forall>p\<in>set pre. \<not> matches fmts req p"
    and "vlc_from_v4l2_fourcc fmts (pixelformat c) = Some d"
    and "vlc (fmts ! d) = req"
  shows "InitVideo_negotiate fmts req (pre @ c # post) = Inr d"
proof -
  have "valid_ptr fmts None" by (simp add: valid_ptr_def)
  from enum_first_match [OF assms this]
  show ?thesis by (simp add: InitVideo_negotiate_def del: InitVideo_enum.simps)
qed

text \<open>Request I420: emulated YU12 is selected although native YUYV precedes it and native YV12 follows.\<close>

theorem requested_format_selected_witness:
  "\<not> matches v4l2_fmts_le (fourcc_le CHR ''I'' CHR ''4'' CHR ''2'' CHR ''0'') (fmtdesc ''YUYV'' False) \<and>
   vlc_from_v4l2_fourcc v4l2_fmts_le (pixelformat (fmtdesc ''YU12'' True)) = Some 0 \<and>
   vlc (v4l2_fmts_le ! 0) = fourcc_le CHR ''I'' CHR ''4'' CHR ''2'' CHR ''0'' \<and>
   InitVideo_negotiate v4l2_fmts_le (fourcc_le CHR ''I'' CHR ''4'' CHR ''2'' CHR ''0'')
     [fmtdesc ''YUYV'' False, fmtdesc ''YU12'' True, fmtdesc ''YV12'' False] = Inr 0"
proof -
  have m: "\<not> matches v4l2_fmts_le (fourcc_le CHR ''I'' CHR ''4'' CHR ''2'' CHR ''0'') (fmtdesc ''YUYV'' False)"
    by (simp add: matches_def lookup_YUYV) (simp add: v4l2_fmts_le_def fmt_entry_def fourcc_le_def)
  then have pre: "\<forall>p\<in>set [fmtdesc ''YUYV'' False].
      \<not> matches v4l2_fmts_le (fourcc_le CHR ''I'' CHR ''4'' CHR ''2'' CHR ''0'') p"
    by simp
  from requested_format_selected [OF pre lookup_YU12 vlc_entry_0, of True "[fmtdesc ''YV12'' False]"]
  have "InitVideo_negotiate v4l2_fmts_le (fourcc_le CHR ''I'' CHR ''4'' CHR ''2'' CHR ''0'')
     [fmtdesc ''YUYV'' False, fmtdesc ''YU12'' True, fmtdesc ''YV12'' False] = Inr 0"
    by simp
  with m lookup_YU12 [of True] vlc_entry_0 show ?thesis by blast
qed

subsection \<open>No recognized encoding\<close>

text \<open>
  Claim C8. When the catalog recognizes none of the enumerated encodings, the
  negotiation fails with "cannot negotiate supported video format", whatever was
  requested: no format is selected, \<^verbatim>\<open>InitVideo\<close> fails, and it fails with this very
  failure when the steps before the negotiation succeed.
\<close>

theorem no_recognized_format_fails:
  assumes "\<forall>c\<in>set (VIDIOC_ENUM_FMT dev). \<not> recognized (v4l2_fmts b) c"
  shows "InitVideo_negotiate (v4l2_fmts b) req (VIDIOC_ENUM_FMT dev)
           = Inl Cannot_negotiate_supported_video_format
       \<and> (\<exists>e. InitVideo b dev sys = Inl e)
       \<and> (\<forall>cap method. VIDIOC_QUERYCAP dev = Some cap \<and>
             InitVideo_io (InitVideo_caps (HAVE_V4L2_CAP_DEVICE_CAPS b) cap) = Inr method \<and>
             SetupInput_ok dev
           \<longrightarrow> InitVideo b dev sys = Inl Cannot_negotiate_supported_video_format)"
proof -
  from assms have "\<forall>c\<in>set (VIDIOC_ENUM_FMT dev).
      vlc_from_v4l2_fourcc (v4l2_fmts b) (pixelformat c) = None"
    by (simp add: recognized_def)
  then have e: "InitVideo_enum (v4l2_fmts b) r (VIDIOC_ENUM_FMT dev) None False = Inr None" for r
    by (rule enum_none_recognized)
  then have n: "InitVideo_negotiate (v4l2_fmts b) r (VIDIOC_ENUM_FMT dev)
           = Inl Cannot_negotiate_supported_video_format" for r
    by (simp add: InitVideo_negotiate_def)
  have "\<exists>e. InitVideo b dev sys = Inl e"
    by (simp add: InitVideo_def n split: option.splits sum.splits)
  moreover have "\<forall>cap method. VIDIOC_QUERYCAP dev = Some cap \<and>
             InitVideo_io (InitVideo_caps (HAVE_V4L2_CAP_DEVICE_CAPS b) cap) = Inr method \<and>
             SetupInput_ok dev
           \<longrightarrow> InitVideo b dev sys = Inl Cannot_negotiate_supported_video_format"
    by (simp add: InitVideo_def n)
  ultimately show ?thesis using n by blast
qed

text \<open>A device that reports Y41P and (emulated) BA81 only.\<close>

theorem no_recognized_format_fails_witness:
  "\<not> recognized v4l2_fmts_le (fmtdesc ''Y41P'' False) \<and>
   \<not> recognized v4l2_fmts_le (fmtdesc ''BA81'' True) \<and>
   InitVideo example_build
     (example_device (V4L2_CAP_VIDEO_CAPTURE OR V4L2_CAP_STREAMING)
        [fmtdesc ''Y41P'' False, fmtdesc ''BA81'' True])
     calloc_demux_sys = Inl Cannot_negotiate_supported_video_format"
proof -
  let ?dev = "example_device (V4L2_CAP_VIDEO_CAPTURE OR V4L2_CAP_STREAMING)
        [fmtdesc ''Y41P'' False, fmtdesc ''BA81'' True]"
  have r: "\<not> recognized v4l2_fmts_le (fmtdesc ''Y41P'' False)"
    "\<not> recognized v4l2_fmts_le (fmtdesc ''BA81'' True)"
    by (simp_all add: recognized_def lookup_Y41P lookup_BA81)
  then have h: "\<forall>c\<in>set (VIDIOC_ENUM_FMT ?dev). \<not> recognized (v4l2_fmts example_build) c"
    by (simp add: example_device_def example_build_def)
  have q: "VIDIOC_QUERYCAP ?dev
      = Some \<lparr>capabilities = V4L2_CAP_VIDEO_CAPTURE OR V4L2_CAP_STREAMING, device_caps = 0\<rparr>"
    by (simp add: example_device_def)
  have i: "InitVideo_io (InitVideo_caps (HAVE_V4L2_CAP_DEVICE_CAPS example_build)
      \<lparr>capabilities = V4L2_CAP_VIDEO_CAPTURE OR V4L2_CAP_STREAMING, device_caps = 0\<rparr>)
      = Inr IO_METHOD_MMAP"
    by (simp add: InitVideo_io_def InitVideo_caps_def example_build_def
        V4L2_CAP_VIDEO_CAPTURE_def V4L2_CAP_STREAMING_def V4L2_CAP_DEVICE_CAPS_def)
  have s: "SetupInput_ok ?dev" by (simp add: example_device_def)
  from no_recognized_format_fails [OF h, of 0 calloc_demux_sys] q i s
  have "InitVideo example_build ?dev calloc_demux_sys = Inl Cannot_negotiate_supported_video_format"
    by blast
  with r show ?thesis by blast
qed

subsection \<open>The I/O method\<close>

lemma InitVideo_io_failure:
  "VIDIOC_QUERYCAP dev = Some cap \<Longrightarrow>
   InitVideo_io (InitVideo_caps (HAVE_V4L2_CAP_DEVICE_CAPS b) cap) = Inl e \<Longrightarrow>
   InitVideo b dev sys = Inl e"
  by (simp add: InitVideo_def)

lemma InitVideo_init_io_io:
  "InitVideo_init_io dev pix sys = Inr sys' \<Longrightarrow>
   io sys' = io sys \<and> i_block_flags sys' = i_block_flags sys"
  by (auto simp: InitVideo_init_io_def split: io_method.splits option.splits if_splits)

lemma InitVideo_success:
  assumes "InitVideo b dev sys = Inr (sys', es)"
  shows "\<exists>cap method selected pix timeperframe ar.
     VIDIOC_QUERYCAP dev = Some cap \<and>
     InitVideo_io (InitVideo_caps (HAVE_V4L2_CAP_DEVICE_CAPS b) cap) = Inr method \<and>
     InitVideo_negotiate (v4l2_fmts b)
        (var_InheritFourCC (vlc_fourcc_GetCodecFromString b) (chroma dev)) (VIDIOC_ENUM_FMT dev)
       = Inr selected \<and>
     SetupFormat dev (v4l2 (v4l2_fmts b ! selected)) = Some (pix, timeperframe) \<and>
     InitVideo_ar (VOUT_ASPECT_FACTOR b) (aspect_ratio dev) = Inr ar \<and>
     io sys' = method \<and>
     i_block_flags sys' = snd (InitVideo_field (BLOCK_FLAG_TOP_FIELD_FIRST b)
                                 (BLOCK_FLAG_BOTTOM_FIELD_FIRST b) pix (i_block_flags sys)) \<and>
     es = InitVideo_es_fmt (VOUT_ASPECT_FACTOR b) (v4l2_fmts b ! selected)
            (fst (InitVideo_field (BLOCK_FLAG_TOP_FIELD_FIRST b)
                    (BLOCK_FLAG_BOTTOM_FIELD_FIRST b) pix (i_block_flags sys))) timeperframe ar"
  using assms
  by (auto simp: InitVideo_def split: option.splits sum.splits if_splits prod.splits
      dest!: InitVideo_init_io_io)

text \<open>
  Claim C7. For every capability word \<open>caps\<close>: without the capture capability the
  setup fails; otherwise memory mapping is chosen whenever the streaming capability is
  present, also when read/write is present too; otherwise read is chosen when the
  read/write capability is present; otherwise the setup fails with "no supported I/O
  method". The last two conjuncts tie this to \<^verbatim>\<open>InitVideo\<close>: a failure of the choice
  is the failure of \<^verbatim>\<open>InitVideo\<close>, and a session that \<^verbatim>\<open>InitVideo\<close> returns uses the
  chosen method.
\<close>

theorem io_method_choice:
  "(caps AND V4L2_CAP_VIDEO_CAPTURE = 0 \<longrightarrow> InitVideo_io caps = Inl Not_a_video_capture_device) \<and>
   (caps AND V4L2_CAP_VIDEO_CAPTURE \<noteq> 0 \<and> caps AND V4L2_CAP_STREAMING \<noteq> 0
      \<longrightarrow> InitVideo_io caps = Inr IO_METHOD_MMAP) \<and>
   (caps AND V4L2_CAP_VIDEO_CAPTURE \<noteq> 0 \<and> caps AND V4L2_CAP_STREAMING = 0 \<and>
    caps AND V4L2_CAP_READWRITE \<noteq> 0
      \<longrightarrow> InitVideo_io caps = Inr IO_METHOD_READ) \<and>
   (caps AND V4L2_CAP_VIDEO_CAPTURE \<noteq> 0 \<and> caps AND V4L2_CAP_STREAMING = 0 \<and>
    caps AND V4L2_CAP_READWRITE = 0
      \<longrightarrow> InitVideo_io caps = Inl No_supported_io_method) \<and>
   (\<forall>b dev sys cap e. VIDIOC_QUERYCAP dev = Some cap \<and>
      caps = InitVideo_caps (HAVE_V4L2_CAP_DEVICE_CAPS b) cap \<and> InitVideo_io caps = Inl e
      \<longrightarrow> InitVideo b dev sys = Inl e) \<and>
   (\<forall>b dev sys cap sys' es. VIDIOC_QUERYCAP dev = Some cap \<and>
      caps = InitVideo_caps (HAVE_V4L2_CAP_DEVICE_CAPS b) cap \<and>
      InitVideo b dev sys = Inr (sys', es)
      \<longrightarrow> InitVideo_io caps = Inr (io sys'))"
proof -
  have "InitVideo b dev sys = Inl e"
    if "VIDIOC_QUERYCAP dev = Some cap"
      "caps = InitVideo_caps (HAVE_V4L2_CAP_DEVICE_CAPS b) cap" "InitVideo_io caps = Inl e"
    for b dev sys cap e
    using that by (simp add: InitVideo_io_failure)
  moreover have "InitVideo_io caps = Inr (io sys')"
    if "VIDIOC_QUERYCAP dev = Some cap"
      "caps = InitVideo_caps (HAVE_V4L2_CAP_DEVICE_CAPS b) cap"
      "InitVideo b dev sys = Inr (sys', es)"
    for b dev sys cap sys' es
    using InitVideo_success [OF that(3)] that(1,2) by auto
  moreover have "caps AND V4L2_CAP_VIDEO_CAPTURE = 0 \<longrightarrow> InitVideo_io caps = Inl Not_a_video_capture_device"
    by (simp add: InitVideo_io_def)
  moreover have "caps AND V4L2_CAP_VIDEO_CAPTURE \<noteq> 0 \<and> caps AND V4L2_CAP_STREAMING \<noteq> 0
      \<longrightarrow> InitVideo_io caps = Inr IO_METHOD_MMAP"
    by (simp add: InitVideo_io_def)
  moreover have "caps AND V4L2_CAP_VIDEO_CAPTURE \<noteq> 0 \<and> caps AND V4L2_CAP_STREAMING = 0 \<and>
    caps AND V4L2_CAP_READWRITE \<noteq> 0 \<longrightarrow> InitVideo_io caps = Inr IO_METHOD_READ"
    by (simp add: InitVideo_io_def)
  moreover have "caps AND V4L2_CAP_VIDEO_CAPTURE \<noteq> 0 \<and> caps AND V4L2_CAP_STREAMING = 0 \<and>
    caps AND V4L2_CAP_READWRITE = 0 \<longrightarrow> InitVideo_io caps = Inl No_supported_io_method"
    by (simp add: InitVideo_io_def)
  ultimately show ?thesis by blast
qed

text \<open>The four cases on the kernel's capability bits.\<close>

theorem io_method_choice_witness:
  "(V4L2_CAP_VIDEO_CAPTURE OR V4L2_CAP_STREAMING OR V4L2_CAP_READWRITE) AND V4L2_CAP_VIDEO_CAPTURE \<noteq> 0 \<and>
   (V4L2_CAP_VIDEO_CAPTURE OR V4L2_CAP_STREAMING OR V4L2_CAP_READWRITE) AND V4L2_CAP_STREAMING \<noteq> 0 \<and>
   (V4L2_CAP_VIDEO_CAPTURE OR V4L2_CAP_STREAMING OR V4L2_CAP_READWRITE) AND V4L2_CAP_READWRITE \<noteq> 0 \<and>
   InitVideo_io (V4L2_CAP_VIDEO_CAPTURE OR V4L2_CAP_STREAMING OR V4L2_CAP_READWRITE)
     = Inr IO_METHOD_MMAP \<and>
   InitVideo_io (V4L2_CAP_VIDEO_CAPTURE OR V4L2_CAP_READWRITE) = Inr IO_METHOD_READ \<and>
   InitVideo_io V4L2_CAP_VIDEO_CAPTURE = Inl No_supported_io_method \<and>
   InitVideo_io (V4L2_CAP_STREAMING OR V4L2_CAP_READWRITE) = Inl Not_a_video_capture_device"
proof -
  have a: "(V4L2_CAP_VIDEO_CAPTURE OR V4L2_CAP_STREAMING OR V4L2_CAP_READWRITE) AND V4L2_CAP_VIDEO_CAPTURE \<noteq> 0"
    "(V4L2_CAP_VIDEO_CAPTURE OR V4L2_CAP_STREAMING OR V4L2_CAP_READWRITE) AND V4L2_CAP_STREAMING \<noteq> 0"
    "(V4L2_CAP_VIDEO_CAPTURE OR V4L2_CAP_STREAMING OR V4L2_CAP_READWRITE) AND V4L2_CAP_READWRITE \<noteq> 0"
    by (simp_all add: V4L2_CAP_VIDEO_CAPTURE_def V4L2_CAP_STREAMING_def V4L2_CAP_READWRITE_def)
  have b: "(V4L2_CAP_VIDEO_CAPTURE OR V4L2_CAP_READWRITE) AND V4L2_CAP_VIDEO_CAPTURE \<noteq> 0"
    "(V4L2_CAP_VIDEO_CAPTURE OR V4L2_CAP_READWRITE) AND V4L2_CAP_STREAMING = 0"
    "(V4L2_CAP_VIDEO_CAPTURE OR V4L2_CAP_READWRITE) AND V4L2_CAP_READWRITE \<noteq> 0"
    by (simp_all add: V4L2_CAP_VIDEO_CAPTURE_def V4L2_CAP_STREAMING_def V4L2_CAP_READWRITE_def)
  have c: "V4L2_CAP_VIDEO_CAPTURE AND V4L2_CAP_VIDEO_CAPTURE \<noteq> 0"
    "V4L2_CAP_VIDEO_CAPTURE AND V4L2_CAP_STREAMING = 0"
    "V4L2_CAP_VIDEO_CAPTURE AND V4L2_CAP_READWRITE = 0"
    by (simp_all add: V4L2_CAP_VIDEO_CAPTURE_def V4L2_CAP_STREAMING_def V4L2_CAP_READWRITE_def)
  have d: "(V4L2_CAP_STREAMING OR V4L2_CAP_READWRITE) AND V4L2_CAP_VIDEO_CAPTURE = 0"
    by (simp add: V4L2_CAP_VIDEO_CAPTURE_def V4L2_CAP_STREAMING_def V4L2_CAP_READWRITE_def)
  from a io_method_choice [of "V4L2_CAP_VIDEO_CAPTURE OR V4L2_CAP_STREAMING OR V4L2_CAP_READWRITE"]
  have 1: "InitVideo_io (V4L2_CAP_VIDEO_CAPTURE OR V4L2_CAP_STREAMING OR V4L2_CAP_READWRITE)
     = Inr IO_METHOD_MMAP" by blast
  from b io_method_choice [of "V4L2_CAP_VIDEO_CAPTURE OR V4L2_CAP_READWRITE"]
  have 2: "InitVideo_io (V4L2_CAP_VIDEO_CAPTURE OR V4L2_CAP_READWRITE) = Inr IO_METHOD_READ"
    by blast
  from c io_method_choice [of "V4L2_CAP_VIDEO_CAPTURE"]
  have 3: "InitVideo_io V4L2_CAP_VIDEO_CAPTURE = Inl No_supported_io_method" by blast
  from d io_method_choice [of "V4L2_CAP_STREAMING OR V4L2_CAP_READWRITE"]
  have 4: "InitVideo_io (V4L2_CAP_STREAMING OR V4L2_CAP_READWRITE) = Inl Not_a_video_capture_device"
    by blast
  from a 1 2 3 4 show ?thesis by blast
qed

subsection \<open>InitVideo on the example devices\<close>

text \<open>
  Values of \<^verbatim>\<open>ar\<close> for \<open>F = 432000\<close>: a string that ends at its colon divides by
  zero, and for "21:1" on a 720 x 480 frame the product \<open>ar * height\<close> no longer fits 32
  bits.
\<close>

lemmas eval_ar = InitVideo_ar_def int_mul_def int_div_def INT_MIN_def INT_MAX_def strchr_def
  atoi_def isspace_def isdigit_def signed_divide_int_def

lemma ar_16_9: "InitVideo_ar 432000 (Some ''16:9'') = Inr 768000"
  by (simp add: eval_ar)

lemma ar_16_7: "InitVideo_ar 432000 (Some ''16:7'') = Inr 987428"
  by (simp add: eval_ar)

lemma ar_div_by_zero: "InitVideo_ar 432000 (Some ''16:'') = Inl Integer_division_by_zero"
  by (simp add: eval_ar)

lemma ar_default: "InitVideo_ar 432000 None = Inr 576000 \<and> InitVideo_ar 432000 (Some ''16/9'') = Inr 576000"
  by (simp add: eval_ar)

lemma ar_21_1: "InitVideo_ar 432000 (Some ''21:1'') = Inr 9072000"
  by (simp add: eval_ar)

lemma sar_21_1_wraps:
  "i_sar_num (InitVideo_es_fmt 432000 (v4l2_fmts_le ! 0) pix_720x480
                \<lparr>numerator = 1, denominator = 25\<rparr> 9072000) = 59592704"
  by (simp add: InitVideo_es_fmt_def pix_720x480_def)

lemmas V4L2_FIELD_defs = V4L2_FIELD_NONE_def V4L2_FIELD_TOP_def V4L2_FIELD_BOTTOM_def
  V4L2_FIELD_INTERLACED_def V4L2_FIELD_SEQ_TB_def V4L2_FIELD_SEQ_BT_def V4L2_FIELD_ALTERNATE_def
  V4L2_FIELD_INTERLACED_TB_def V4L2_FIELD_INTERLACED_BT_def V4L2_FIELD_ANY_def

text \<open>
  The example device with streaming: YUYV is negotiated, the frame is 720 x 480,
  interleaved, the ratio string is "16:9", and two buffers are mapped.
\<close>

lemma entry_3: "v4l2_fmts_le ! 3 = fmt_entry ''YUYV'' ''YUY2'' 0 0 0"
  by (simp add: v4l2_fmts_le_def)

lemma InitVideo_example_es:
  "InitVideo example_build
     (example_device (V4L2_CAP_VIDEO_CAPTURE OR V4L2_CAP_STREAMING) [fmtdesc ''YUYV'' False])
     calloc_demux_sys = Inr (example_sys, example_es)"
proof -
  have n: "InitVideo_negotiate v4l2_fmts_le 0 [fmtdesc ''YUYV'' False] = Inr 3"
    by (simp add: eval_enum)
  have i: "InitVideo_io (V4L2_CAP_VIDEO_CAPTURE OR V4L2_CAP_STREAMING) = Inr IO_METHOD_MMAP"
    by (simp add: InitVideo_io_def V4L2_CAP_VIDEO_CAPTURE_def V4L2_CAP_STREAMING_def)
  have c: "InitVideo_caps True \<lparr>capabilities = V4L2_CAP_VIDEO_CAPTURE OR V4L2_CAP_STREAMING, device_caps = 0\<rparr>
      = V4L2_CAP_VIDEO_CAPTURE OR V4L2_CAP_STREAMING"
    by (simp add: InitVideo_caps_def V4L2_CAP_VIDEO_CAPTURE_def V4L2_CAP_STREAMING_def
        V4L2_CAP_DEVICE_CAPS_def)
  have f: "InitVideo_field 0x2000 0x4000
      \<lparr>width = 720, height = 480, field = V4L2_FIELD_INTERLACED, sizeimage = 691200\<rparr> 0
      = (\<lparr>width = 720, height = 480, field = V4L2_FIELD_INTERLACED, sizeimage = 691200\<rparr>, 0x2000)"
    by (simp add: InitVideo_field_def V4L2_FIELD_defs)
  have e: "InitVideo_es_fmt 432000 (v4l2_fmts_le ! 3)
      \<lparr>width = 720, height = 480, field = V4L2_FIELD_INTERLACED, sizeimage = 691200\<rparr>
      \<lparr>numerator = 1, denominator = 25\<rparr> 768000 = example_es"
    by (simp add: InitVideo_es_fmt_def entry_3 fmt_entry_def example_es_def)
  show ?thesis
    by (simp add: InitVideo_def example_build_def example_device_def calloc_demux_sys_def
        var_InheritFourCC_def n i c f e ar_16_9 InitVideo_init_io_def example_sys_def
        numeral_2_eq_2)
qed

lemma InitVideo_example:
  "\<exists>es. InitVideo example_build
     (example_device (V4L2_CAP_VIDEO_CAPTURE OR V4L2_CAP_STREAMING) [fmtdesc ''YUYV'' False])
     calloc_demux_sys = Inr (example_sys, es)"
  using InitVideo_example_es by blast


subsection \<open>Interlacing\<close>





subsection \<open>Aspect ratio\<close>

lemma sdiv_nonneg: "0 \<le> a \<Longrightarrow> 0 < b \<Longrightarrow> a sdiv b = a div (b :: int)"
  by (simp add: signed_divide_int_def sgn_if)

lemma int_mul_in_range:
  assumes "0 \<le> a" "0 \<le> b" "a * b \<le> INT_MAX"
  shows "int_mul a b = Inr (a * b)"
proof -
  from assms(1,2) have "0 \<le> a * b" by simp
  then have "INT_MIN \<le> a * b" by (simp add: INT_MIN_def)
  with assms(3) show ?thesis by (simp add: int_mul_def)
qed

lemma int_div_nonneg: "0 \<le> a \<Longrightarrow> 0 < b \<Longrightarrow> int_div a b = Inr (a div b)"
  by (simp add: int_div_def INT_MIN_def sdiv_nonneg)

lemma uint_scaled:
  assumes "0 \<le> a" "a * uint x < 2 ^ 32"
  shows "uint (word_of_int a * (x :: u32)) = a * uint x"
proof -
  have "uint (word_of_int a * x) = (a mod 2 ^ 32 * uint x) mod 2 ^ 32"
    by (simp add: uint_word_ariths uint_word_of_int)
  also have "\<dots> = (a * uint x) mod 2 ^ 32" by (simp add: mod_mult_left_eq)
  also have "\<dots> = a * uint x" using assms by simp
  finally show ?thesis .
qed

lemma InitVideo_ar_default:
  assumes "0 < F" "4 * F \<le> INT_MAX"
    and "str = None \<or> (\<exists>s. str = Some s \<and> strchr s CHR '':'' = None)"
  shows "InitVideo_ar F str = Inr (4 * F div 3)"
proof -
  from assms(1,2) have m: "int_mul 4 F = Inr (4 * F)" by (simp add: int_mul_in_range)
  from assms(1) have d: "int_div (4 * F) 3 = Inr (4 * F div 3)" by (simp add: int_div_nonneg)
  from assms(3) m d show ?thesis by (auto simp: InitVideo_ar_def)
qed

lemma InitVideo_ar_string:
  assumes "0 < F" "4 * F \<le> INT_MAX"
    and "strchr s CHR '':'' = Some delim" "atoi s = Inr w" "atoi (tl delim) = Inr h"
    and "0 \<le> w" "0 < h" "w * F \<le> INT_MAX"
  shows "InitVideo_ar F (Some s) = Inr (w * F div h)"
proof -
  from assms(1,2) have m: "int_mul 4 F = Inr (4 * F)" by (simp add: int_mul_in_range)
  from assms(1) have d: "int_div (4 * F) 3 = Inr (4 * F div 3)" by (simp add: int_div_nonneg)
  from assms(1,6,8) have m': "int_mul w F = Inr (w * F)" by (simp add: int_mul_in_range)
  from assms(1,6,7) have d': "int_div (w * F) h = Inr (w * F div h)" by (simp add: int_div_nonneg)
  from m d m' d' assms(3,4,5) show ?thesis by (simp add: InitVideo_ar_def)
qed

lemma uint_scaled_mod:
  "uint (word_of_int a * (x :: u32)) = (a * uint x) mod 2 ^ 32"
proof -
  have "uint (word_of_int a * x) = (a mod 2 ^ 32 * uint x) mod 2 ^ 32"
    by (simp add: uint_word_ariths uint_word_of_int)
  also have "\<dots> = (a * uint x) mod 2 ^ 32" by (simp add: mod_mult_left_eq)
  finally show ?thesis .
qed

lemma InitVideo_sample_aspect:
  assumes "InitVideo b dev sys = Inr (sys', es)"
  shows "\<exists>ar. InitVideo_ar (VOUT_ASPECT_FACTOR b) (aspect_ratio dev) = Inr ar \<and>
     uint (i_sar_num es) = (ar * uint (i_height es)) mod 2 ^ 32 \<and>
     uint (i_sar_den es) = (VOUT_ASPECT_FACTOR b * uint (i_width es)) mod 2 ^ 32"
proof -
  from InitVideo_success [OF assms] obtain selected pix timeperframe ar where
    a: "InitVideo_ar (VOUT_ASPECT_FACTOR b) (aspect_ratio dev) = Inr ar"
    and es: "es = InitVideo_es_fmt (VOUT_ASPECT_FACTOR b) (v4l2_fmts b ! selected)
            (fst (InitVideo_field (BLOCK_FLAG_TOP_FIELD_FIRST b)
                    (BLOCK_FLAG_BOTTOM_FIELD_FIRST b) pix (i_block_flags sys))) timeperframe ar"
    by blast
  have "uint (i_sar_num es) = (ar * uint (i_height es)) mod 2 ^ 32"
    unfolding es by (simp add: InitVideo_es_fmt_def uint_scaled_mod)
  moreover have "uint (i_sar_den es) = (VOUT_ASPECT_FACTOR b * uint (i_width es)) mod 2 ^ 32"
    unfolding es by (simp add: InitVideo_es_fmt_def uint_scaled_mod)
  ultimately show ?thesis using a by blast
qed

text \<open>
  Claim C9 (as amended). With \<open>F\<close> the value of \<^verbatim>\<open>VOUT_ASPECT_FACTOR\<close> (positive,
  \<open>4 * F\<close> within \<^verbatim>\<open>int\<close>): the display aspect ratio is the fixed-point number
  \<open>ar = 4 * F div 3\<close> when no ratio string is configured or the string has no colon;
  when the string has a colon, with \<open>W = atoi(string) \<ge> 0\<close>,
  \<open>H = atoi(text after the first colon) > 0\<close> and \<open>W * F\<close> within \<^verbatim>\<open>int\<close>, it is
  \<open>ar = W * F div H\<close>, rounded down. The published sample aspect ratio is numerator
  \<open>ar * height\<close> and denominator \<open>F * width\<close>, each reduced modulo \<open>2^32\<close> (fourth
  conjunct; fifth conjunct: these are the values in the stream descriptor of every
  successful \<^verbatim>\<open>InitVideo\<close>). When neither product reaches \<open>2^32\<close> the two are the
  exact products (third conjunct), and when in addition \<open>H\<close> divides \<open>W * F\<close>,
  numerator : denominator equals \<open>(W * height) : (H * width)\<close> (second conjunct).
\<close>

theorem sample_aspect_ratio:
  assumes "0 < F" and "4 * F \<le> INT_MAX"
  shows
   "((str = None \<or> (\<exists>s. str = Some s \<and> strchr s CHR '':'' = None))
       \<longrightarrow> InitVideo_ar F str = Inr (4 * F div 3)) \<and>
    (\<forall>s delim w h.
       str = Some s \<and> strchr s CHR '':'' = Some delim \<and> atoi s = Inr w \<and> atoi (tl delim) = Inr h \<and>
       0 \<le> w \<and> 0 < h \<and> w * F \<le> INT_MAX
       \<longrightarrow> InitVideo_ar F str = Inr (w * F div h) \<and>
           (h dvd w * F \<and> (w * F div h) * uint (height pix) < 2 ^ 32 \<and> F * uint (width pix) < 2 ^ 32
            \<longrightarrow> uint (i_sar_num (InitVideo_es_fmt F sel pix tpf (w * F div h))) * (h * uint (width pix))
              = uint (i_sar_den (InitVideo_es_fmt F sel pix tpf (w * F div h))) * (w * uint (height pix)))) \<and>
    (\<forall>ar. 0 \<le> ar \<and> ar * uint (height pix) < 2 ^ 32 \<and> F * uint (width pix) < 2 ^ 32
       \<longrightarrow> uint (i_sar_num (InitVideo_es_fmt F sel pix tpf ar)) = ar * uint (height pix) \<and>
           uint (i_sar_den (InitVideo_es_fmt F sel pix tpf ar)) = F * uint (width pix)) \<and>
    (\<forall>ar. uint (i_sar_num (InitVideo_es_fmt F sel pix tpf ar)) = (ar * uint (height pix)) mod 2 ^ 32 \<and>
          uint (i_sar_den (InitVideo_es_fmt F sel pix tpf ar)) = (F * uint (width pix)) mod 2 ^ 32) \<and>
    (\<forall>b dev sys sys' es. VOUT_ASPECT_FACTOR b = F \<and> InitVideo b dev sys = Inr (sys', es)
       \<longrightarrow> (\<exists>ar. InitVideo_ar F (aspect_ratio dev) = Inr ar \<and>
              uint (i_sar_num es) = (ar * uint (i_height es)) mod 2 ^ 32 \<and>
              uint (i_sar_den es) = (F * uint (i_width es)) mod 2 ^ 32))"
proof (intro conjI allI impI)
  assume "str = None \<or> (\<exists>s. str = Some s \<and> strchr s CHR '':'' = None)"
  with assms show "InitVideo_ar F str = Inr (4 * F div 3)" by (rule InitVideo_ar_default)
next
  fix s delim w h
  assume a: "str = Some s \<and> strchr s CHR '':'' = Some delim \<and> atoi s = Inr w \<and>
     atoi (tl delim) = Inr h \<and> 0 \<le> w \<and> 0 < h \<and> w * F \<le> INT_MAX"
  then show "InitVideo_ar F str = Inr (w * F div h)"
    using assms InitVideo_ar_string [of F s delim w h] by blast
next
  fix s delim w h
  assume a: "str = Some s \<and> strchr s CHR '':'' = Some delim \<and> atoi s = Inr w \<and>
     atoi (tl delim) = Inr h \<and> 0 \<le> w \<and> 0 < h \<and> w * F \<le> INT_MAX"
    and b: "h dvd w * F \<and> (w * F div h) * uint (height pix) < 2 ^ 32 \<and> F * uint (width pix) < 2 ^ 32"
  let ?ar = "w * F div h"
  from a assms(1) have ar: "0 \<le> ?ar" by (simp add: pos_imp_zdiv_nonneg_iff)
  from b have exact: "?ar * h = w * F" by simp
  have n: "uint (i_sar_num (InitVideo_es_fmt F sel pix tpf ?ar)) = ?ar * uint (height pix)"
    using ar b by (simp add: InitVideo_es_fmt_def uint_scaled)
  have d: "uint (i_sar_den (InitVideo_es_fmt F sel pix tpf ?ar)) = F * uint (width pix)"
    using assms(1) b by (simp add: InitVideo_es_fmt_def uint_scaled)
  have "?ar * uint (height pix) * (h * uint (width pix))
      = (?ar * h) * (uint (height pix) * uint (width pix))" by (simp add: algebra_simps)
  also have "\<dots> = F * uint (width pix) * (w * uint (height pix))"
    unfolding exact by (simp add: algebra_simps)
  finally show "uint (i_sar_num (InitVideo_es_fmt F sel pix tpf ?ar)) * (h * uint (width pix))
      = uint (i_sar_den (InitVideo_es_fmt F sel pix tpf ?ar)) * (w * uint (height pix))"
    unfolding n d .
next
  fix ar
  assume "0 \<le> ar \<and> ar * uint (height pix) < 2 ^ 32 \<and> F * uint (width pix) < 2 ^ 32"
  then show "uint (i_sar_num (InitVideo_es_fmt F sel pix tpf ar)) = ar * uint (height pix)"
    by (simp add: InitVideo_es_fmt_def uint_scaled)
next
  fix ar
  assume "0 \<le> ar \<and> ar * uint (height pix) < 2 ^ 32 \<and> F * uint (width pix) < 2 ^ 32"
  with assms(1) show "uint (i_sar_den (InitVideo_es_fmt F sel pix tpf ar)) = F * uint (width pix)"
    by (simp add: InitVideo_es_fmt_def uint_scaled)
next
  fix ar
  show "uint (i_sar_num (InitVideo_es_fmt F sel pix tpf ar)) = (ar * uint (height pix)) mod 2 ^ 32"
    by (simp add: InitVideo_es_fmt_def uint_scaled_mod)
next
  fix ar
  show "uint (i_sar_den (InitVideo_es_fmt F sel pix tpf ar)) = (F * uint (width pix)) mod 2 ^ 32"
    by (simp add: InitVideo_es_fmt_def uint_scaled_mod)
next
  fix b dev sys sys' es
  assume "VOUT_ASPECT_FACTOR b = F \<and> InitVideo b dev sys = Inr (sys', es)"
  then show "\<exists>ar. InitVideo_ar F (aspect_ratio dev) = Inr ar \<and>
              uint (i_sar_num es) = (ar * uint (i_height es)) mod 2 ^ 32 \<and>
              uint (i_sar_den es) = (F * uint (i_width es)) mod 2 ^ 32"
    using InitVideo_sample_aspect [of b dev sys sys' es] by blast
qed

text \<open>
  The example of the claim: "16:9" on a 720 x 480 frame gives 368640000 : 311040000,
  which is (16 * 480) : (9 * 720), also as the result of \<^verbatim>\<open>InitVideo\<close> on the example
  device.
\<close>

theorem sample_aspect_ratio_witness:
  "(0 :: int) < 432000 \<and> 4 * 432000 \<le> INT_MAX \<and>
   strchr ''16:9'' CHR '':'' = Some '':9'' \<and> atoi ''16:9'' = Inr 16 \<and> atoi (tl '':9'') = Inr 9 \<and>
   InitVideo_ar 432000 (Some ''16:9'') = Inr 768000 \<and>
   i_sar_num (InitVideo_es_fmt 432000 (v4l2_fmts_le ! 0) pix_720x480
                \<lparr>numerator = 1, denominator = 25\<rparr> 768000) = 368640000 \<and>
   i_sar_den (InitVideo_es_fmt 432000 (v4l2_fmts_le ! 0) pix_720x480
                \<lparr>numerator = 1, denominator = 25\<rparr> 768000) = 311040000 \<and>
   uint (i_sar_num (InitVideo_es_fmt 432000 (v4l2_fmts_le ! 0) pix_720x480
                \<lparr>numerator = 1, denominator = 25\<rparr> 768000)) * (9 * 720)
     = uint (i_sar_den (InitVideo_es_fmt 432000 (v4l2_fmts_le ! 0) pix_720x480
                \<lparr>numerator = 1, denominator = 25\<rparr> 768000)) * (16 * 480) \<and>
   (\<exists>sys' es. InitVideo example_build
       (example_device (V4L2_CAP_VIDEO_CAPTURE OR V4L2_CAP_STREAMING) [fmtdesc ''YUYV'' False])
       calloc_demux_sys = Inr (sys', es) \<and>
     i_width es = 720 \<and> i_height es = 480 \<and>
     uint (i_sar_num es) = 368640000 \<and> uint (i_sar_den es) = 311040000)"
proof -
  let ?es = "InitVideo_es_fmt 432000 (v4l2_fmts_le ! 0) pix_720x480
                \<lparr>numerator = 1, denominator = 25\<rparr>"
  let ?dev = "example_device (V4L2_CAP_VIDEO_CAPTURE OR V4L2_CAP_STREAMING) [fmtdesc ''YUYV'' False]"
  have F: "(0 :: int) < 432000" "4 * 432000 \<le> INT_MAX" by (simp_all add: INT_MAX_def)
  have s: "strchr ''16:9'' CHR '':'' = Some '':9''" by (simp add: strchr_def)
  have w: "atoi ''16:9'' = Inr 16" and h: "atoi (tl '':9'') = Inr 9"
    by (simp_all add: atoi_def isspace_def isdigit_def INT_MIN_def INT_MAX_def)
  have r: "(0 :: int) \<le> 16" "(0 :: int) < 9" "16 * 432000 \<le> INT_MAX"
    by (simp_all add: INT_MAX_def)
  have dv: "(9 :: int) dvd 16 * 432000" by simp
  have q: "(16 * 432000 div 9 :: int) = 768000" by simp
  have b: "(16 * 432000 div 9) * uint (height pix_720x480) < 2 ^ 32"
    "432000 * uint (width pix_720x480) < 2 ^ 32"
    by (simp_all add: pix_720x480_def)
  note t = sample_aspect_ratio [OF F, of "Some ''16:9''" pix_720x480 "v4l2_fmts_le ! 0"
      "\<lparr>numerator = 1, denominator = 25\<rparr>"]
  from t s w h r have ar: "InitVideo_ar 432000 (Some ''16:9'') = Inr (16 * 432000 div 9)"
    by blast
  from t s w h r dv b
  have p: "uint (i_sar_num (?es (16 * 432000 div 9))) * (9 * uint (width pix_720x480))
         = uint (i_sar_den (?es (16 * 432000 div 9))) * (16 * uint (height pix_720x480))"
    by blast
  have wh: "uint (width pix_720x480) = 720" "uint (height pix_720x480) = 480"
    by (simp_all add: pix_720x480_def)
  have n: "i_sar_num (?es 768000) = 368640000" and d: "i_sar_den (?es 768000) = 311040000"
    by (simp_all add: InitVideo_es_fmt_def pix_720x480_def)
  from ar have ar': "InitVideo_ar 432000 (Some ''16:9'') = Inr 768000" unfolding q .
  from p have p': "uint (i_sar_num (?es 768000)) * (9 * 720)
         = uint (i_sar_den (?es 768000)) * (16 * 480)" unfolding q wh .
  have dims: "i_width example_es = 720" "i_height example_es = 480"
    by (simp_all add: example_es_def)
  have vf: "VOUT_ASPECT_FACTOR example_build = 432000" by (simp add: example_build_def)
  have asp: "aspect_ratio ?dev = Some ''16:9''" by (simp add: example_device_def)
  from t [THEN conjunct2, THEN conjunct2, THEN conjunct2, THEN conjunct2, rule_format,
      of example_build ?dev calloc_demux_sys example_sys example_es]
    vf InitVideo_example_es
  obtain a where a: "InitVideo_ar 432000 (aspect_ratio ?dev) = Inr a"
    and sn: "uint (i_sar_num example_es) = (a * uint (i_height example_es)) mod 2 ^ 32"
    and sd: "uint (i_sar_den example_es) = (432000 * uint (i_width example_es)) mod 2 ^ 32"
    by blast
  from a have a': "a = 768000" unfolding asp ar_16_9 by simp
  from sn have sn': "uint (i_sar_num example_es) = 368640000" unfolding a' dims by simp
  from sd have sd': "uint (i_sar_den example_es) = 311040000" unfolding dims by simp
  from InitVideo_example_es dims sn' sd'
  have ex: "\<exists>sys' es. InitVideo example_build ?dev calloc_demux_sys = Inr (sys', es) \<and>
     i_width es = 720 \<and> i_height es = 480 \<and>
     uint (i_sar_num es) = 368640000 \<and> uint (i_sar_den es) = 311040000"
    by blast
  from F s w h ar' n d p' ex show ?thesis by (intro conjI)
qed

text \<open>
  The claim as stated (the sample aspect ratio is, in exact arithmetic, the display
  ratio W:H times height over width) fails where \<open>H\<close> does not divide \<open>W * F\<close>:
  for "16:7" the division rounds \<open>ar\<close> down to 987428, and the published
  473965440 : 311040000 is not (16 * 480) : (7 * 720).
\<close>

theorem sample_aspect_ratio_counterexample:
  "strchr ''16:7'' CHR '':'' = Some '':7'' \<and> atoi ''16:7'' = Inr 16 \<and> atoi (tl '':7'') = Inr 7 \<and>
   InitVideo_ar 432000 (Some ''16:7'') = Inr 987428 \<and>
   i_sar_num (InitVideo_es_fmt 432000 (v4l2_fmts_le ! 0) pix_720x480
                \<lparr>numerator = 1, denominator = 25\<rparr> 987428) = 473965440 \<and>
   i_sar_den (InitVideo_es_fmt 432000 (v4l2_fmts_le ! 0) pix_720x480
                \<lparr>numerator = 1, denominator = 25\<rparr> 987428) = 311040000 \<and>
   (473965440 :: int) * (7 * 720) \<noteq> 311040000 * (16 * 480)"
  by (simp add: ar_16_7 InitVideo_es_fmt_def pix_720x480_def)
     (simp add: strchr_def atoi_def isspace_def isdigit_def INT_MIN_def INT_MAX_def)

subsection \<open>Teardown\<close>

lemma DemuxClose_mmap:
  assumes "io sys = IO_METHOD_MMAP" "p_buffers sys = Some bufs" "i_nbuffers sys \<le> length bufs"
  shows "DemuxClose sys =
     Some (replicate (i_nbuffers sys) VIDIOC_DQBUF @ [VIDIOC_STREAMOFF]
           @ map (\<lambda>b. V4l2_munmap (start b) (length_b b)) (take (i_nbuffers sys) bufs)
           @ [Free_p_buffers, ControlsDeinit, V4l2_close, Free_sys])"
  using assms by (simp add: DemuxClose_def DemuxClose_free_def DemuxClose_stop_def)

text \<open>
  Claim C4 (as amended). During the teardown of a memory-mapped session every buffer
  is dequeued (one \<^verbatim>\<open>VIDIOC_DQBUF\<close> per buffer) before streaming is disabled on the
  device, and every mapped buffer's memory mapping is released after streaming has been
  disabled: the calls of \<^verbatim>\<open>DemuxClose\<close> are the dequeueings, then
  \<^verbatim>\<open>VIDIOC_STREAMOFF\<close>, then the unmappings in the order of the pool, then the
  release of the pool, of the controls, of the device and of the session. No unmapping
  stands before \<^verbatim>\<open>VIDIOC_STREAMOFF\<close>, which occurs once.
\<close>

theorem DemuxClose_mmap_calls:
  assumes "io sys = IO_METHOD_MMAP" and "p_buffers sys = Some bufs"
    and "i_nbuffers sys \<le> length bufs"
  shows "DemuxClose sys =
       Some (replicate (i_nbuffers sys) VIDIOC_DQBUF @ VIDIOC_STREAMOFF #
             map (\<lambda>b. V4l2_munmap (start b) (length_b b)) (take (i_nbuffers sys) bufs)
             @ [Free_p_buffers, ControlsDeinit, V4l2_close, Free_sys]) \<and>
     VIDIOC_STREAMOFF \<notin> set (map (\<lambda>b. V4l2_munmap (start b) (length_b b)) (take (i_nbuffers sys) bufs)
                               @ [Free_p_buffers, ControlsDeinit, V4l2_close, Free_sys]) \<and>
     (\<forall>a l. V4l2_munmap a l \<notin> set (replicate (i_nbuffers sys) VIDIOC_DQBUF))"
  using DemuxClose_mmap [OF assms] by auto

text \<open>The session that \<^verbatim>\<open>InitVideo\<close> returns for the example device, with two mapped buffers.\<close>

theorem DemuxClose_mmap_calls_witness:
  "io example_sys = IO_METHOD_MMAP \<and>
   p_buffers example_sys = Some [\<lparr>start = 4096, length_b = 691200\<rparr>, \<lparr>start = 696320, length_b = 691200\<rparr>] \<and>
   i_nbuffers example_sys = 2 \<and>
   DemuxClose example_sys
   = Some (replicate 2 VIDIOC_DQBUF @ VIDIOC_STREAMOFF #
           [V4l2_munmap 4096 691200, V4l2_munmap 696320 691200]
           @ [Free_p_buffers, ControlsDeinit, V4l2_close, Free_sys])"
proof -
  let ?bufs = "[\<lparr>start = 4096, length_b = 691200\<rparr>, \<lparr>start = 696320, length_b = 691200\<rparr>]"
  have a: "io example_sys = IO_METHOD_MMAP" and b: "p_buffers example_sys = Some ?bufs"
    and n: "i_nbuffers example_sys = 2"
    by (simp_all add: example_sys_def)
  from n have c: "i_nbuffers example_sys \<le> length ?bufs" by simp
  from DemuxClose_mmap_calls [OF a b c]
  have "DemuxClose example_sys
   = Some (replicate 2 VIDIOC_DQBUF @ VIDIOC_STREAMOFF #
           [V4l2_munmap 4096 691200, V4l2_munmap 696320 691200]
           @ [Free_p_buffers, ControlsDeinit, V4l2_close, Free_sys])"
    unfolding n by simp
  with a b n show ?thesis by (intro conjI)
qed

text \<open>
  The claim as stated (every mapping is released before streaming is disabled) fails
  on that session: \<^verbatim>\<open>DemuxClose\<close> dequeues twice, disables streaming, and unmaps the
  two buffers only then; no unmapping stands before \<^verbatim>\<open>VIDIOC_STREAMOFF\<close>.
\<close>

theorem DemuxClose_mmap_order:
  "DemuxClose example_sys
   = Some [VIDIOC_DQBUF, VIDIOC_DQBUF, VIDIOC_STREAMOFF,
           V4l2_munmap 4096 691200, V4l2_munmap 696320 691200, Free_p_buffers,
           ControlsDeinit, V4l2_close, Free_sys] \<and>
   \<not> (\<exists>before after. DemuxClose example_sys = Some (before @ VIDIOC_STREAMOFF # after) \<and>
         (V4l2_munmap 4096 691200 \<in> set before \<or> V4l2_munmap 696320 691200 \<in> set before))"
proof -
  have e: "DemuxClose example_sys
   = Some [VIDIOC_DQBUF, VIDIOC_DQBUF, VIDIOC_STREAMOFF,
           V4l2_munmap 4096 691200, V4l2_munmap 696320 691200, Free_p_buffers,
           ControlsDeinit, V4l2_close, Free_sys]"
    by (simp add: example_sys_def DemuxClose_def DemuxClose_free_def DemuxClose_stop_def
        numeral_2_eq_2)
  have u: "before = [VIDIOC_DQBUF, VIDIOC_DQBUF]"
    if "[VIDIOC_DQBUF, VIDIOC_DQBUF, VIDIOC_STREAMOFF,
           V4l2_munmap 4096 691200, V4l2_munmap 696320 691200, Free_p_buffers,
           ControlsDeinit, V4l2_close, Free_sys] = before @ VIDIOC_STREAMOFF # after"
    for before after
    using that by (auto simp: Cons_eq_append_conv)
  have "\<not> (\<exists>before after. DemuxClose example_sys = Some (before @ VIDIOC_STREAMOFF # after) \<and>
         (V4l2_munmap 4096 691200 \<in> set before \<or> V4l2_munmap 696320 691200 \<in> set before))"
  proof (intro notI, elim exE conjE)
    fix before after
    assume d: "DemuxClose example_sys = Some (before @ VIDIOC_STREAMOFF # after)"
      and m: "V4l2_munmap 4096 691200 \<in> set before \<or> V4l2_munmap 696320 691200 \<in> set before"
    from d e have "[VIDIOC_DQBUF, VIDIOC_DQBUF, VIDIOC_STREAMOFF,
           V4l2_munmap 4096 691200, V4l2_munmap 696320 691200, Free_p_buffers,
           ControlsDeinit, V4l2_close, Free_sys] = before @ VIDIOC_STREAMOFF # after"
      by simp
    then have "before = [VIDIOC_DQBUF, VIDIOC_DQBUF]" by (rule u)
    with m show False by simp
  qed
  with e show ?thesis by (intro conjI)
qed

subsection \<open>The waiting loop of Demux\<close>

lemma Demux_poll_retry:
  "\<forall>q\<in>set qs. ret q = - 1 \<and> errno q = EINTR \<Longrightarrow> Demux_poll (qs @ ps) = Demux_poll ps"
proof (induction qs)
  case Nil
  show ?case by simp
next
  case (Cons a qs)
  from Cons.prems have a: "ret a = - 1" "errno a = EINTR"
    and rest: "\<forall>q\<in>set qs. ret q = - 1 \<and> errno q = EINTR" by auto
  have "Demux_poll ((a # qs) @ ps) = Demux_poll (qs @ ps)" using a by simp
  with Cons.IH [OF rest] show ?case by simp
qed

text \<open>
  Claim C6. In every call of \<^verbatim>\<open>Demux\<close>: a poll that fails with \<^verbatim>\<open>EINTR\<close> is
  retried, the call goes on as if it had started at the next poll (first conjunct, and
  for any number of such failures the second); a poll that fails with any other error
  ends the call with the result -1 and nothing sent; a poll that does not fail and
  reports no event ends the call with the result 1 and nothing sent, which is no
  error.
\<close>

theorem Demux_poll_outcomes:
  "(ret p = - 1 \<and> errno p = EINTR \<longrightarrow> Demux sys (p # ps) cap = Demux sys ps cap) \<and>
   ((\<forall>q\<in>set qs. ret q = - 1 \<and> errno q = EINTR) \<longrightarrow> Demux sys (qs @ ps) cap = Demux sys ps cap) \<and>
   (ret p = - 1 \<and> errno p \<noteq> EINTR \<longrightarrow> Demux sys (p # ps) cap = Some (- 1, [])) \<and>
   (ret p \<noteq> - 1 \<and> revents p = 0 \<longrightarrow> Demux sys (p # ps) cap = Some (1, []))"
proof (intro conjI impI)
  assume "ret p = - 1 \<and> errno p = EINTR"
  then have "Demux_poll (p # ps) = Demux_poll ps" by simp
  then show "Demux sys (p # ps) cap = Demux sys ps cap"
    by (simp only: Demux_def)
next
  assume "\<forall>q\<in>set qs. ret q = - 1 \<and> errno q = EINTR"
  then have "Demux_poll (qs @ ps) = Demux_poll ps" by (rule Demux_poll_retry)
  then show "Demux sys (qs @ ps) cap = Demux sys ps cap"
    by (simp only: Demux_def)
next
  assume "ret p = - 1 \<and> errno p \<noteq> EINTR"
  then show "Demux sys (p # ps) cap = Some (- 1, [])"
    by (simp add: Demux_def)
next
  assume "ret p \<noteq> - 1 \<and> revents p = 0"
  then show "Demux sys (p # ps) cap = Some (1, [])"
    by (simp add: Demux_def)
qed

text \<open>An interrupted poll followed by a timeout, and one followed by a failure with \<^verbatim>\<open>EIO\<close>.\<close>

theorem Demux_poll_outcomes_witness:
  "Demux calloc_demux_sys
     [\<lparr>ret = - 1, errno = EINTR, revents = 0\<rparr>, \<lparr>ret = 0, errno = 0, revents = 0\<rparr>]
     example_capture = Some (1, []) \<and>
   Demux calloc_demux_sys
     [\<lparr>ret = - 1, errno = EINTR, revents = 0\<rparr>, \<lparr>ret = - 1, errno = 5, revents = 0\<rparr>]
     example_capture = Some (- 1, [])"
proof -
  let ?eintr = "\<lparr>ret = - 1, errno = EINTR, revents = 0\<rparr>"
  let ?timeout = "\<lparr>ret = 0, errno = 0, revents = 0\<rparr>"
  let ?eio = "\<lparr>ret = - 1, errno = 5, revents = 0\<rparr>"
  have e: "ret ?eintr = - 1 \<and> errno ?eintr = EINTR" by simp
  have t: "ret ?timeout \<noteq> - 1 \<and> revents ?timeout = 0" by simp
  have f: "ret ?eio = - 1 \<and> errno ?eio \<noteq> EINTR" by (simp add: EINTR_def)
  have 1: "Demux calloc_demux_sys [?timeout] example_capture = Some (1, [])"
    by (rule Demux_poll_outcomes [where p = ?timeout and ps = "[]" and qs = "[]",
          THEN conjunct2, THEN conjunct2, THEN conjunct2, THEN mp, OF t])
  have 2: "Demux calloc_demux_sys [?eio] example_capture = Some (- 1, [])"
    by (rule Demux_poll_outcomes [where p = ?eio and ps = "[]" and qs = "[]",
          THEN conjunct2, THEN conjunct2, THEN conjunct1, THEN mp, OF f])
  have 3: "Demux calloc_demux_sys [?eintr, ?timeout] example_capture
         = Demux calloc_demux_sys [?timeout] example_capture"
    by (rule Demux_poll_outcomes [where p = ?eintr and ps = "[?timeout]" and qs = "[]",
          THEN conjunct1, THEN mp, OF e])
  have 4: "Demux calloc_demux_sys [?eintr, ?eio] example_capture
         = Demux calloc_demux_sys [?eio] example_capture"
    by (rule Demux_poll_outcomes [where p = ?eintr and ps = "[?eio]" and qs = "[]",
          THEN conjunct1, THEN mp, OF e])
  from 1 2 3 4 show ?thesis by (simp only: simp_thms)
qed

end
